theory Spec2Isabelle
  imports Main
begin

section \<open>The import queue (class ImportQueue)\<close>

text \<open>
  The queue object holds two independent FIFO lists (URLs and file paths), for each an
  optional Qt signal and the flag that a drain is running. \<open>addUrl\<close> and
  \<open>addFile\<close> start a thread running \<open>_emitUrl\<close> / \<open>_emitFile\<close> when no drain
  is running; the number of threads started so far is kept as a counter, the threads'
  own sleeping and emitting is not modelled.
\<close>

type_synonym signal = nat

record ImportQueue =
  urlQueue :: "string list"
  signalUrl :: "signal option"
  readUrlQueue :: bool
  urlEmitThreads :: nat
  fileQueue :: "string list"
  signalFile :: "signal option"
  readFileQueue :: bool
  fileEmitThreads :: nat

definition ImportQueue_init :: ImportQueue where
  "ImportQueue_init =
     \<lparr>urlQueue = [], signalUrl = None, readUrlQueue = False, urlEmitThreads = 0,
      fileQueue = [], signalFile = None, readFileQueue = False, fileEmitThreads = 0\<rparr>"

definition setUrlSignal :: "signal \<Rightarrow> ImportQueue \<Rightarrow> ImportQueue" where
  "setUrlSignal sg q = q\<lparr>signalUrl := Some sg\<rparr>"

definition addUrl :: "ImportQueue \<Rightarrow> string \<Rightarrow> ImportQueue" where
  "addUrl q url =
     (let q1 = q\<lparr>urlQueue := urlQueue q @ [url]\<rparr>
      in if \<not> readUrlQueue q1 then q1\<lparr>urlEmitThreads := urlEmitThreads q1 + 1\<rparr> else q1)"

definition setFileSignal :: "signal \<Rightarrow> ImportQueue \<Rightarrow> ImportQueue" where
  "setFileSignal sg q = q\<lparr>signalFile := Some sg\<rparr>"

definition addFile :: "ImportQueue \<Rightarrow> string \<Rightarrow> ImportQueue" where
  "addFile q file =
     (let q1 = q\<lparr>fileQueue := fileQueue q @ [file]\<rparr>
      in if \<not> readFileQueue q1 then q1\<lparr>fileEmitThreads := fileEmitThreads q1 + 1\<rparr> else q1)"

text \<open>
  \<open>iterUrl\<close> and \<open>iterFile\<close> are generators. A generator object is at one of three
  places: created and not yet started, suspended at its \<open>yield\<close>, or finished. One call
  of \<open>next\<close> runs the body up to the following \<open>yield\<close> (the popped item is the
  result) or to the end of the body (the result is \<open>None\<close>, Python's StopIteration).
\<close>

datatype gen_pc = GenCreated | GenSuspended | GenDone

fun iterUrl_next :: "gen_pc \<Rightarrow> ImportQueue \<Rightarrow> string option \<times> gen_pc \<times> ImportQueue" where
  "iterUrl_next GenDone q = (None, GenDone, q)"
| "iterUrl_next pc q =
     (let q1 = (if pc = GenCreated then q\<lparr>readUrlQueue := True\<rparr> else q)
      in case urlQueue q1 of
           [] \<Rightarrow> (None, GenDone, q1\<lparr>readUrlQueue := False\<rparr>)
         | x # rest \<Rightarrow> (Some x, GenSuspended, q1\<lparr>urlQueue := rest\<rparr>))"

fun iterFile_next :: "gen_pc \<Rightarrow> ImportQueue \<Rightarrow> string option \<times> gen_pc \<times> ImportQueue" where
  "iterFile_next GenDone q = (None, GenDone, q)"
| "iterFile_next pc q =
     (let q1 = (if pc = GenCreated then q\<lparr>readFileQueue := True\<rparr> else q)
      in case fileQueue q1 of
           [] \<Rightarrow> (None, GenDone, q1\<lparr>readFileQueue := False\<rparr>)
         | x # rest \<Rightarrow> (Some x, GenSuspended, q1\<lparr>fileQueue := rest\<rparr>))"

text \<open>The first \<open>k\<close> calls of \<open>next\<close>: the items yielded and the state they leave.\<close>

fun iterUrl_take :: "nat \<Rightarrow> gen_pc \<Rightarrow> ImportQueue \<Rightarrow> string list \<times> gen_pc \<times> ImportQueue" where
  "iterUrl_take 0 pc q = ([], pc, q)"
| "iterUrl_take (Suc k) pc q =
     (case iterUrl_next pc q of
        (None, pc', q') \<Rightarrow> ([], pc', q')
      | (Some x, pc', q') \<Rightarrow>
          (case iterUrl_take k pc' q' of (ys, pc'', q'') \<Rightarrow> (x # ys, pc'', q'')))"

fun iterFile_take :: "nat \<Rightarrow> gen_pc \<Rightarrow> ImportQueue \<Rightarrow> string list \<times> gen_pc \<times> ImportQueue" where
  "iterFile_take 0 pc q = ([], pc, q)"
| "iterFile_take (Suc k) pc q =
     (case iterFile_next pc q of
        (None, pc', q') \<Rightarrow> ([], pc', q')
      | (Some x, pc', q') \<Rightarrow>
          (case iterFile_take k pc' q' of (ys, pc'', q'') \<Rightarrow> (x # ys, pc'', q'')))"

text \<open>
  Running a generator to exhaustion, as a \<open>for\<close> loop over it does when its body leaves
  the queue alone: every call of \<open>next\<close> that yields has shortened the queue.
\<close>

lemma iterUrl_next_shorter:
  "iterUrl_next pc q = (Some x, pc', q') \<Longrightarrow> length (urlQueue q') < length (urlQueue q)"
  by (cases pc) (auto simp: Let_def split: list.splits)

lemma iterFile_next_shorter:
  "iterFile_next pc q = (Some x, pc', q') \<Longrightarrow> length (fileQueue q') < length (fileQueue q)"
  by (cases pc) (auto simp: Let_def split: list.splits)

function iterUrl_all :: "gen_pc \<Rightarrow> ImportQueue \<Rightarrow> string list \<times> ImportQueue" where
  "iterUrl_all pc q =
     (case iterUrl_next pc q of
        (None, pc', q') \<Rightarrow> ([], q')
      | (Some x, pc', q') \<Rightarrow> (case iterUrl_all pc' q' of (ys, q'') \<Rightarrow> (x # ys, q'')))"
  by pat_completeness auto
termination
  by (relation "measure (\<lambda>(pc, q). length (urlQueue q))")
     (auto dest: iterUrl_next_shorter [OF sym])

function iterFile_all :: "gen_pc \<Rightarrow> ImportQueue \<Rightarrow> string list \<times> ImportQueue" where
  "iterFile_all pc q =
     (case iterFile_next pc q of
        (None, pc', q') \<Rightarrow> ([], q')
      | (Some x, pc', q') \<Rightarrow> (case iterFile_all pc' q' of (ys, q'') \<Rightarrow> (x # ys, q'')))"
  by pat_completeness auto
termination
  by (relation "measure (\<lambda>(pc, q). length (fileQueue q))")
     (auto dest: iterFile_next_shorter [OF sym])

declare iterUrl_all.simps [simp del] iterFile_all.simps [simp del]

section \<open>Python strings, numbers and paths\<close>

type_synonym bytes = string

definition startswith :: "string \<Rightarrow> string \<Rightarrow> bool" where
  "startswith s p = (take (length p) s = p)"

definition endswith :: "string \<Rightarrow> string \<Rightarrow> bool" where
  "endswith s p = (length p \<le> length s \<and> drop (length s - length p) s = p)"

text \<open>\<open>str(i)\<close> for a non-negative Python int: its decimal digits.\<close>

definition digit_char :: "nat \<Rightarrow> char" where
  "digit_char n = ''0123456789'' ! n"

fun string_of_nat :: "nat \<Rightarrow> string" where
  "string_of_nat n =
     (if n < 10 then [digit_char n] else string_of_nat (n div 10) @ [digit_char (n mod 10)])"

declare string_of_nat.simps [simp del]

definition digit_val :: "char \<Rightarrow> nat" where
  "digit_val c = of_char c - 48"

text \<open>
  \<open>s.split(sep)\<close> for a one-character separator: the pieces between the separators,
  one more than there are separators. \<open>s.split(sep, 1)\<close> cuts at the first separator
  only. \<open>s.strip(c)\<close> removes the leading and the trailing run of the character.
\<close>

fun py_split :: "char \<Rightarrow> string \<Rightarrow> string list" where
  "py_split sep [] = [[]]"
| "py_split sep (c # cs) =
     (if c = sep then [] # py_split sep cs
      else (case py_split sep cs of p # ps \<Rightarrow> (c # p) # ps | [] \<Rightarrow> [[c]]))"

definition py_split1 :: "char \<Rightarrow> string \<Rightarrow> string list" where
  "py_split1 sep s =
     (if sep \<in> set s then [takeWhile (\<lambda>c. c \<noteq> sep) s, tl (dropWhile (\<lambda>c. c \<noteq> sep) s)]
      else [s])"

definition py_strip :: "char \<Rightarrow> string \<Rightarrow> string" where
  "py_strip c s = rev (dropWhile (\<lambda>x. x = c) (rev (dropWhile (\<lambda>x. x = c) s)))"

text \<open>
  \<open>os.path.split(p)[1]\<close>: what follows the last separator of the path (the whole path
  when it has none). The separators are those of the platform: \<open>/\<close>, and on
  Windows also the backslash. A drive prefix with no separator after it is not modelled.
\<close>

definition os_path_split_tail :: "string \<Rightarrow> string \<Rightarrow> string" where
  "os_path_split_tail seps p = rev (takeWhile (\<lambda>c. c \<notin> set seps) (rev p))"

text \<open>
  \<open>os.path.splitext\<close> on a name without separators: the extension starts at the last
  dot, unless only dots stand before it (or there is no dot), and then it is empty.
\<close>

definition os_path_splitext :: "string \<Rightarrow> string \<times> string" where
  "os_path_splitext p =
     (let n = length (takeWhile (\<lambda>c. c \<noteq> CHR ''.'') (rev p))
      in if n = length p then (p, [])
         else (let dotIndex = length p - n - 1
               in if filter (\<lambda>c. c \<noteq> CHR ''.'') (take dotIndex p) \<noteq> []
                  then (take dotIndex p, drop dotIndex p) else (p, [])))"

section \<open>The mods directory\<close>

text \<open>
  The files of the mods directory, by their path relative to it. \<open>os.path.exists\<close> of
  the directory joined with a name holds for the files in it and for the names that
  denote the directory itself or its parent.
\<close>

type_synonym directory = "(string \<times> bytes) list"

definition path_exists :: "directory \<Rightarrow> string \<Rightarrow> bool" where
  "path_exists d name = (name \<in> set [[], ''.'', ''..''] \<or> map_of d name \<noteq> None)"

definition write_file :: "directory \<Rightarrow> string \<Rightarrow> bytes \<Rightarrow> directory" where
  "write_file d name content = (name, content) # filter (\<lambda>f. fst f \<noteq> name) d"

definition remove_file :: "directory \<Rightarrow> string \<Rightarrow> directory" where
  "remove_file d name = filter (\<lambda>f. fst f \<noteq> name) d"

text \<open>The name tried at counter \<open>i\<close>: \<open>f"{fileNameSplit[0]} ({i}){fileNameSplit[1]}"\<close>.\<close>

definition candidate :: "string \<Rightarrow> string \<Rightarrow> nat \<Rightarrow> string" where
  "candidate stem ext i = stem @ '' ('' @ string_of_nat i @ '')'' @ ext"

lemma digit_val_digit_char: "n < 10 \<Longrightarrow> digit_val (digit_char n) = n"
proof -
  assume "n < 10"
  then have "n \<in> {0, 1, 2, 3, 4, 5, 6, 7, 8, 9}" by auto
  then show ?thesis
    by (auto simp: digit_val_def digit_char_def)
qed

lemma nat_of_string_of_nat:
  "foldl (\<lambda>a c. 10 * a + digit_val c) 0 (string_of_nat n) = n"
proof (induction n rule: string_of_nat.induct)
  case (1 n)
  show ?case
  proof (cases "n < 10")
    case True
    then show ?thesis by (simp add: string_of_nat.simps [of n] digit_val_digit_char)
  next
    case False
    with 1 show ?thesis
      by (simp add: string_of_nat.simps [of n] digit_val_digit_char)
  qed
qed

lemma string_of_nat_inj: "string_of_nat i = string_of_nat j \<Longrightarrow> i = j"
  by (metis nat_of_string_of_nat)

lemma candidate_inj: "candidate stem ext i = candidate stem ext j \<Longrightarrow> i = j"
  by (simp add: candidate_def string_of_nat_inj)

lemma finite_existing_candidates: "finite {j. path_exists d (candidate stem ext j)}"
proof -
  have "{j. path_exists d (candidate stem ext j)} =
        candidate stem ext -` (set [[], ''.'', ''..''] \<union> fst ` set d)"
    by (auto simp: path_exists_def map_of_eq_None_iff)
  moreover have "finite (candidate stem ext -` (set [[], ''.'', ''..''] \<union> fst ` set d))"
    by (rule finite_vimageI) (auto intro!: injI dest: candidate_inj)
  ultimately show ?thesis by simp
qed

text \<open>
  The loop \<open>while os.path.exists(...): i += 1\<close>. It ends because the names tried are
  pairwise distinct and the directory holds finitely many files.
\<close>

function free_index :: "directory \<Rightarrow> string \<Rightarrow> string \<Rightarrow> nat \<Rightarrow> nat" where
  "free_index d stem ext i =
     (if path_exists d (candidate stem ext i) then free_index d stem ext (i + 1) else i)"
  by pat_completeness auto
termination
proof (relation "measure (\<lambda>(d, stem, ext, i). card {j. i \<le> j \<and> path_exists d (candidate stem ext j)})")
  show "wf (measure (\<lambda>(d, stem, ext, i). card {j. i \<le> j \<and> path_exists d (candidate stem ext j)}))"
    by simp
next
  fix d stem ext and i :: nat
  assume ex: "path_exists d (candidate stem ext i)"
  have fin: "finite {j. i \<le> j \<and> path_exists d (candidate stem ext j)}"
    by (rule finite_subset [OF _ finite_existing_candidates [of d stem ext]]) auto
  have "i \<in> {j. i \<le> j \<and> path_exists d (candidate stem ext j)}"
       "i \<notin> {j. i + 1 \<le> j \<and> path_exists d (candidate stem ext j)}"
    using ex by simp_all
  moreover have "{j. i + 1 \<le> j \<and> path_exists d (candidate stem ext j)} \<subseteq>
        {j. i \<le> j \<and> path_exists d (candidate stem ext j)}"
    by auto
  ultimately have "{j. i + 1 \<le> j \<and> path_exists d (candidate stem ext j)} \<subset>
        {j. i \<le> j \<and> path_exists d (candidate stem ext j)}"
    by blast
  then have "card {j. i + 1 \<le> j \<and> path_exists d (candidate stem ext j)} <
        card {j. i \<le> j \<and> path_exists d (candidate stem ext j)}"
    by (rule psubset_card_mono [OF fin])
  then show "((d, stem, ext, i + 1), (d, stem, ext, i)) \<in>
      measure (\<lambda>(d, stem, ext, i). card {j. i \<le> j \<and> path_exists d (candidate stem ext j)})"
    by simp
qed

declare free_index.simps [simp del]

section \<open>Engine events, commands and the window state\<close>

text \<open>
  The values the engine puts into a notification's \<open>args\<close> and into its replies.
  Mod hashes travel as such values: they are dictionary keys and command arguments.
\<close>

datatype arg = ANone | ABool bool | AInt int | AStr string | AStrs "string list"

datatype NotificationType =
    LoadingMod | ModElementsCount
  | ModConflictSearchInSwf | ModConflictNotFound | ModConflict
  | InstallingModSwf | InstallingModSwfSprite | InstallingModSwfSound
  | InstallingModFile | InstallingModFileCache | InstallingModFinished
  | UninstallingModSwf | UninstallingModSwfSprite | UninstallingModSwfSound
  | UninstallingModFile | UninstallingModFinished
  | CompileModSourcesSpriteHasNoSymbolclass | CompileModSourcesSpriteEmpty
  | CompileModSourcesSpriteNotFoundInFolder | CompileModSourcesUnsupportedCategory
  | CompileModSourcesUnknownFile | CompileModSourcesSaveError
  | LoadingModIsEmpty
  | InstallingModNotFoundFileElement | InstallingModNotFoundGameSwf
  | InstallingModSwfScriptError | InstallingModSwfSoundSymbolclassNotExist
  | InstallingModSoundNotExist | InstallingModSwfSpriteSymbolclassNotExist
  | InstallingModSpriteNotExist
  | UninstallingModSwfOriginalElementNotFound | UninstallingModSwfElementNotFound
  | OtherNotificationType nat

record Notification =
  notificationType :: NotificationType
  args :: "arg list"

type_synonym modData = "(string \<times> arg) list"

text \<open>What \<open>controller.getData()\<close> returns: \<open>data[0]\<close> is the constructor, \<open>data[1]\<close> its payload.\<close>

datatype Environment =
    EnvNotification Notification
  | EnvReloadMods
  | EnvGetModsData "modData list"
  | EnvGetModConflict bool arg
  | EnvInstallMod bool arg
  | EnvUninstallMod bool arg
  | EnvDeleteMod
  | EnvSetModsPath
  | EnvInstallBaseMod
  | EnvOther nat

text \<open>The calls made on the controller, in the order they are made.\<close>

datatype command = CmdReloadMods | CmdGetModsData | CmdInstallMod arg

datatype exc =
    IndexError | ValueError | KeyError | TypeError | AttributeError | OSError
  | FileNotFoundError
  | RarCannotExec | LibraryError string

text \<open>
  Of the mods widget, what the handler reads and writes: the mods by hash with their
  name and installed flag, and the hash of the selected mod button, if any.
\<close>

record ModClass =
  name :: string
  installed :: bool

record Mods =
  mods :: "arg \<rightharpoonup> ModClass"
  selectedModButton :: "arg option"

record ProgressDialog =
  pd_shown :: bool
  pd_title :: string
  pd_content :: arg
  pd_value :: int
  pd_maximum :: arg

record AcceptDialog =
  ad_shown :: bool
  ad_title :: string
  ad_content :: string
  ad_accept :: "command list"

record ButtonsDialog =
  bd_shown :: bool
  bd_title :: string
  bd_content :: string
  bd_buttons :: "string list"

datatype mainFrame = LoadingFrame | ModsFrame

text \<open>
  The window object and what it acts on: the files of the mods directory, the commands
  sent to the controller (\<open>controller\<close> tells whether \<open>self.controller\<close> is set), the
  URLs handed to \<open>urlretrieve\<close> and the archive entries handed to \<open>extract\<close>.
\<close>

record ModLoader =
  modsDir :: directory
  errors :: "Notification list"
  controller :: bool
  sent :: "command list"
  loadingText :: string
  frame :: mainFrame
  modsWidget :: Mods
  progressDialog :: ProgressDialog
  acceptDialog :: AcceptDialog
  buttonsDialog :: ButtonsDialog
  downloads :: "string list"
  extractCalls :: "string list"

text \<open>What a download does to the scratch file before it returns or raises.\<close>

datatype download =
    DownloadRefused exc
  | DownloadBroken exc bytes
  | Downloaded bytes

datatype ArchiveFormat = SevenZip | Rar | Zip | Unknown

text \<open>
  What the file uses and does not define: constants and classes of the engine and of the
  widgets, the platform's path functions, the network and the archive libraries.
  \<^item> \<open>MOD_FILE_FORMAT\<close> is \<open>core.MOD_FILE_FORMAT\<close>; \<open>modsPath\<close> the class attribute;
  \<^item> \<open>seps\<close> are the platform's path separators, \<open>abspath\<close> is \<open>os.path.abspath\<close>;
  \<^item> \<open>outside\<close> gives the content of a file that \<open>open(filePath, "rb")\<close> can read;
  \<^item> \<open>urlretrieve\<close> is the outcome of downloading a URL to the scratch file;
  \<^item> \<open>archive_namelist\<close> opens an archive of the given format and lists its entries,
    \<open>archive_extract\<close> gives the content of the entry it writes under the entry's name;
  \<^item> \<open>format_exception\<close> is the traceback text, \<open>str_value\<close> is \<open>str\<close> on a value
    that is not a string, \<open>py_repr\<close> is \<open>repr\<close> of a notification;
  \<^item> \<open>addMod\<close> and \<open>removeAllMods\<close> are the methods of the mods widget.
\<close>

record env =
  MOD_FILE_FORMAT :: string
  modsPath :: string
  seps :: string
  abspath :: "string \<Rightarrow> string"
  outside :: "string \<Rightarrow> bytes option"
  urlretrieve :: "string \<Rightarrow> download"
  archive_namelist :: "ArchiveFormat \<Rightarrow> bytes \<Rightarrow> exc + string list"
  archive_extract :: "ArchiveFormat \<Rightarrow> bytes \<Rightarrow> string \<Rightarrow> exc + bytes"
  format_exception :: "exc \<Rightarrow> string"
  str_value :: "arg \<Rightarrow> string"
  py_repr :: "Notification \<Rightarrow> string"
  addMod :: "modData \<Rightarrow> Mods \<Rightarrow> Mods"
  removeAllMods :: "Mods \<Rightarrow> Mods"

section \<open>Screens, dialogs and reload\<close>

definition setLoadingScreen :: "ModLoader \<Rightarrow> ModLoader" where
  "setLoadingScreen s = s\<lparr>frame := LoadingFrame, loadingText := ''Loading mods sources...''\<rparr>"

definition setModsScreen :: "ModLoader \<Rightarrow> ModLoader" where
  "setModsScreen s = s\<lparr>frame := ModsFrame\<rparr>"

text \<open>\<open>reloadMods\<close> calls two methods of \<open>self.controller\<close>, which is \<open>None\<close> until the engine runs.\<close>

definition reloadMods :: "ModLoader \<Rightarrow> exc option \<times> ModLoader" where
  "reloadMods s =
     (let s1 = setLoadingScreen s
      in if controller s1 then (None, s1\<lparr>sent := sent s1 @ [CmdReloadMods, CmdGetModsData]\<rparr>)
         else (Some AttributeError, s1))"

definition showError :: "string \<Rightarrow> string \<Rightarrow> ModLoader \<Rightarrow> ModLoader" where
  "showError title content s =
     (let s1 = s\<lparr>buttonsDialog := (buttonsDialog s)\<lparr>bd_title := title\<rparr>\<rparr>;
          s2 = (if ad_shown (acceptDialog s1)
                then s1\<lparr>acceptDialog := (acceptDialog s1)\<lparr>ad_shown := False\<rparr>\<rparr> else s1);
          s3 = (if bd_shown (buttonsDialog s2)
                then s2\<lparr>buttonsDialog := (buttonsDialog s2)\<lparr>bd_shown := False\<rparr>\<rparr> else s2);
          s4 = (if pd_shown (progressDialog s3)
                then s3\<lparr>progressDialog := (progressDialog s3)\<lparr>pd_shown := False\<rparr>\<rparr> else s3)
      in s4\<lparr>buttonsDialog := (buttonsDialog s4)
              \<lparr>bd_content := content, bd_buttons := [''Copy error'', ''Ok''], bd_shown := True\<rparr>\<rparr>)"

section \<open>File import\<close>

text \<open>
  \<open>fileImport\<close>: the early return on the prefix test, the name of the copy, the copy
  itself and the reload. The source file is opened first, so a source that cannot be
  read leaves the mods directory as it was. \<open>setForeground\<close>, which only raises the
  window and swallows its own exceptions, is left out here and in \<open>urlImport\<close>.
\<close>

definition fileImport :: "env \<Rightarrow> ModLoader \<Rightarrow> string \<Rightarrow> exc option \<times> ModLoader" where
  "fileImport e s filePath =
     (if startswith (abspath e filePath) (abspath e (modsPath e)) then (None, s)
      else
        (let fileName = os_path_split_tail (seps e) filePath;
             fileNameSplit = os_path_splitext fileName;
             fileName1 =
               (if path_exists (modsDir s) fileName
                then candidate (fst fileNameSplit) (snd fileNameSplit)
                       (free_index (modsDir s) (fst fileNameSplit) (snd fileNameSplit) 1)
                else fileName)
         in case outside e filePath of
              None \<Rightarrow> (Some OSError, s)
            | Some content \<Rightarrow>
                reloadMods (s\<lparr>modsDir := write_file (modsDir s) fileName1 content\<rparr>)))"

section \<open>URL import\<close>

definition sq :: string where
  "sq = [CHR 0x27]"

definition pd_setMaximum :: "arg \<Rightarrow> ModLoader \<Rightarrow> ModLoader" where
  "pd_setMaximum m s = s\<lparr>progressDialog := (progressDialog s)\<lparr>pd_maximum := m\<rparr>\<rparr>"

definition pd_setTitle :: "string \<Rightarrow> ModLoader \<Rightarrow> ModLoader" where
  "pd_setTitle t s = s\<lparr>progressDialog := (progressDialog s)\<lparr>pd_title := t\<rparr>\<rparr>"

definition pd_setContent :: "arg \<Rightarrow> ModLoader \<Rightarrow> ModLoader" where
  "pd_setContent c s = s\<lparr>progressDialog := (progressDialog s)\<lparr>pd_content := c\<rparr>\<rparr>"

definition pd_setValue :: "int \<Rightarrow> ModLoader \<Rightarrow> ModLoader" where
  "pd_setValue v s = s\<lparr>progressDialog := (progressDialog s)\<lparr>pd_value := v\<rparr>\<rparr>"

definition pd_addValue :: "ModLoader \<Rightarrow> ModLoader" where
  "pd_addValue s = s\<lparr>progressDialog := (progressDialog s)\<lparr>pd_value := pd_value (progressDialog s) + 1\<rparr>\<rparr>"

definition pd_show :: "ModLoader \<Rightarrow> ModLoader" where
  "pd_show s = s\<lparr>progressDialog := (progressDialog s)\<lparr>pd_shown := True\<rparr>\<rparr>"

definition pd_hide :: "ModLoader \<Rightarrow> ModLoader" where
  "pd_hide s = s\<lparr>progressDialog := (progressDialog s)\<lparr>pd_shown := False\<rparr>\<rparr>"

text \<open>The scratch file \<open>os.path.join(self.modsPath, "_mod.archive")\<close>, as a name in the mods directory.\<close>

definition archivePath :: string where
  "archivePath = ''_mod.archive''"

text \<open>The chain of \<open>_signature.startswith\<close> tests, in its order.\<close>

definition sniff :: "bytes \<Rightarrow> ArchiveFormat" where
  "sniff sg =
     (if startswith sg ''7z'' then SevenZip
      else if startswith sg ''Rar'' then Rar
      else if startswith sg ''PK'' then Zip
      else Unknown)"

text \<open>
  The loop over the archive's names, the same for the three libraries: a name that ends
  with a dot and the mod extension is shown and extracted, any other name is skipped.
  An exception of the library leaves the loop.
\<close>

fun extract_entries ::
  "env \<Rightarrow> ArchiveFormat \<Rightarrow> bytes \<Rightarrow> string list \<Rightarrow> ModLoader \<Rightarrow> exc option \<times> ModLoader" where
  "extract_entries e fmt archive [] s = (None, s)"
| "extract_entries e fmt archive (file # files) s =
     (if endswith file (''.'' @ MOD_FILE_FORMAT e)
      then (let s1 = pd_setContent (AStr (''Extract: '' @ sq @ file @ sq)) s;
                s2 = s1\<lparr>extractCalls := extractCalls s1 @ [file]\<rparr>
            in case archive_extract e fmt archive file of
                 Inl x \<Rightarrow> (Some x, s2)
               | Inr content \<Rightarrow>
                   extract_entries e fmt archive files
                     (s2\<lparr>modsDir := write_file (modsDir s2) file content\<rparr>))
      else extract_entries e fmt archive files s)"

definition unpack_archive ::
  "env \<Rightarrow> ArchiveFormat \<Rightarrow> bytes \<Rightarrow> ModLoader \<Rightarrow> exc option \<times> ModLoader" where
  "unpack_archive e fmt archive s =
     (case archive_namelist e fmt archive of
        Inl x \<Rightarrow> (Some x, s)
      | Inr names \<Rightarrow> extract_entries e fmt archive names s)"

text \<open>The chain of branches on the signature; an unknown signature does nothing.\<close>

definition unpack_by_signature ::
  "env \<Rightarrow> bytes \<Rightarrow> bytes \<Rightarrow> ModLoader \<Rightarrow> exc option \<times> ModLoader" where
  "unpack_by_signature e sg content s =
     (case sniff sg of
        SevenZip \<Rightarrow> unpack_archive e SevenZip content s
      | Rar \<Rightarrow> unpack_archive e Rar content s
      | Zip \<Rightarrow> unpack_archive e Zip content s
      | Unknown \<Rightarrow> (None, s))"

text \<open>
  The body of the \<open>try\<close>: download, read three bytes, unpack by format, reload, hide.
  The percentage that \<open>handleUpdateApp\<close> puts into the progress dialog while the
  download runs is not kept.
\<close>

definition import_body :: "env \<Rightarrow> string \<Rightarrow> ModLoader \<Rightarrow> exc option \<times> ModLoader" where
  "import_body e zipUrl s =
     (let s1 = s\<lparr>downloads := downloads s @ [zipUrl]\<rparr>
      in case urlretrieve e zipUrl of
           DownloadRefused x \<Rightarrow> (Some x, s1)
         | DownloadBroken x part \<Rightarrow>
             (Some x, s1\<lparr>modsDir := write_file (modsDir s1) archivePath part\<rparr>)
         | Downloaded content \<Rightarrow>
             (let s2 = s1\<lparr>modsDir := write_file (modsDir s1) archivePath content\<rparr>;
                  sg = take 3 content
              in case unpack_by_signature e sg content s2 of
                   (Some x, s3) \<Rightarrow> (Some x, s3)
                 | (None, s3) \<Rightarrow>
                     (case reloadMods s3 of
                        (Some x, s4) \<Rightarrow> (Some x, s4)
                      | (None, s4) \<Rightarrow> (None, pd_hide s4))))"

text \<open>The \<open>except\<close> clauses: every exception of the body ends in an error dialog.\<close>

definition import_except :: "env \<Rightarrow> exc option \<Rightarrow> ModLoader \<Rightarrow> ModLoader" where
  "import_except e r s =
     (case r of
        None \<Rightarrow> s
      | Some RarCannotExec \<Rightarrow> showError ''Unpack error:'' ''WinRar 'unrar.exe' not found'' s
      | Some x \<Rightarrow> showError ''Unpack error:'' (format_exception e x) s)"

text \<open>The \<open>finally\<close> clause: \<open>os.remove\<close> raises when the scratch file is not there.\<close>

definition import_finally :: "ModLoader \<Rightarrow> exc option \<times> ModLoader" where
  "import_finally s =
     (if map_of (modsDir s) archivePath = None then (Some FileNotFoundError, s)
      else (None, s\<lparr>modsDir := remove_file (modsDir s) archivePath\<rparr>))"

text \<open>
  The two lines that parse the URL: \<open>url.split(":", 1)[1].strip("/")\<close> and
  \<open>data.split(",")\<close>. \<open>None\<close> stands for the IndexError of the index \<open>[1]\<close>.
\<close>

definition splitData_of :: "string \<Rightarrow> string list option" where
  "splitData_of url =
     (case py_split1 CHR '':'' url of
        first # second # rest \<Rightarrow> Some (py_split CHR '','' (py_strip CHR ''/'' second))
      | _ \<Rightarrow> None)"

definition urlImport :: "env \<Rightarrow> ModLoader \<Rightarrow> string \<Rightarrow> exc option \<times> ModLoader" where
  "urlImport e s url =
     (case splitData_of url of
        None \<Rightarrow> (Some IndexError, s)
      | Some splitData \<Rightarrow>
          (if length splitData = 3
           then (let dlId = splitData ! 2;
                     zipUrl = ''http://gamebanana.com/dl/'' @ dlId;
                     s1 = pd_show (pd_setContent (AStr [])
                            (pd_setTitle ''Download mod'' (pd_setMaximum (AInt 100) s)))
                 in case import_body e zipUrl s1 of
                      (r, s2) \<Rightarrow> import_finally (import_except e r s2))
           else (None, s)))"

section \<open>The notification handler\<close>

text \<open>
  \<open>str\<close> inside an f-string, the truth value of \<open>x or y\<close>, and the three ways the
  handler reads \<open>notification.args\<close>: unpacking one element (\<open>a, = args\<close>), unpacking
  two (\<open>a, b = args\<close>) and indexing (\<open>args[i]\<close>). A tuple of the wrong length raises
  ValueError, an index out of range IndexError.
\<close>

definition py_str :: "env \<Rightarrow> arg \<Rightarrow> string" where
  "py_str e a = (case a of AStr s \<Rightarrow> s | _ \<Rightarrow> str_value e a)"

definition truthy :: "arg \<Rightarrow> bool" where
  "truthy a =
     (case a of ANone \<Rightarrow> False | ABool b \<Rightarrow> b | AInt i \<Rightarrow> i \<noteq> 0
      | AStr s \<Rightarrow> s \<noteq> [] | AStrs xs \<Rightarrow> xs \<noteq> [])"

definition unpack1 ::
  "arg list \<Rightarrow> ModLoader \<Rightarrow> (arg \<Rightarrow> exc option \<times> ModLoader) \<Rightarrow> exc option \<times> ModLoader" where
  "unpack1 xs s f = (case xs of [a] \<Rightarrow> f a | _ \<Rightarrow> (Some ValueError, s))"

definition unpack2 ::
  "arg list \<Rightarrow> ModLoader \<Rightarrow> (arg \<Rightarrow> arg \<Rightarrow> exc option \<times> ModLoader) \<Rightarrow> exc option \<times> ModLoader" where
  "unpack2 xs s f = (case xs of [a, b] \<Rightarrow> f a b | _ \<Rightarrow> (Some ValueError, s))"

definition arg_at ::
  "arg list \<Rightarrow> nat \<Rightarrow> ModLoader \<Rightarrow> (arg \<Rightarrow> exc option \<times> ModLoader) \<Rightarrow> exc option \<times> ModLoader" where
  "arg_at xs i s f = (if i < length xs then f (xs ! i) else (Some IndexError, s))"

text \<open>
  The text of one buffered notification: the chain over the kinds with a message of
  their own; the other kinds leave \<open>string\<close> empty. \<open>None\<close> stands for the IndexError
  of an \<open>args\<close> too short for the message.
\<close>

definition fmt1 :: "env \<Rightarrow> Notification \<Rightarrow> (string \<Rightarrow> string) \<Rightarrow> string option" where
  "fmt1 e n f = (if 1 < length (args n) then Some (f (py_str e (args n ! 1))) else None)"

definition fmt2 :: "env \<Rightarrow> Notification \<Rightarrow> (string \<Rightarrow> string \<Rightarrow> string) \<Rightarrow> string option" where
  "fmt2 e n f =
     (if 2 < length (args n) then Some (f (py_str e (args n ! 1)) (py_str e (args n ! 2)))
      else None)"

definition fmt3 ::
  "env \<Rightarrow> Notification \<Rightarrow> (string \<Rightarrow> string \<Rightarrow> string \<Rightarrow> string) \<Rightarrow> string option" where
  "fmt3 e n f =
     (if 3 < length (args n)
      then Some (f (py_str e (args n ! 1)) (py_str e (args n ! 2)) (py_str e (args n ! 3)))
      else None)"

definition error_string :: "env \<Rightarrow> Notification \<Rightarrow> string option" where
  "error_string e n =
     (case notificationType n of
        LoadingModIsEmpty \<Rightarrow> fmt1 e n (\<lambda>a. ''Mod '' @ sq @ a @ sq @ '' is empty'')
      | InstallingModNotFoundFileElement \<Rightarrow>
          fmt1 e n (\<lambda>a. ''Not found element '' @ sq @ a @ sq @ '' in bmod '')
      | InstallingModNotFoundGameSwf \<Rightarrow>
          fmt1 e n (\<lambda>a. ''Not found game file '' @ sq @ a @ sq)
      | InstallingModSwfScriptError \<Rightarrow>
          fmt1 e n (\<lambda>a. ''Script '' @ sq @ a @ sq @ '' not installed'')
      | InstallingModSwfSoundSymbolclassNotExist \<Rightarrow>
          fmt2 e n (\<lambda>a b. ''Not found sound '' @ sq @ a @ sq @ '' in '' @ sq @ b @ sq)
      | InstallingModSoundNotExist \<Rightarrow>
          fmt3 e n (\<lambda>a b c. ''Not found sound '' @ sq @ a @ '' ('' @ b @ '')'' @ sq @ '' in ''
                             @ sq @ c @ sq)
      | InstallingModSwfSpriteSymbolclassNotExist \<Rightarrow>
          fmt2 e n (\<lambda>a b. ''Not found sprite '' @ sq @ a @ sq @ '' in '' @ sq @ b @ sq)
      | InstallingModSpriteNotExist \<Rightarrow>
          fmt2 e n (\<lambda>a b. ''Not found sprite '' @ sq @ a @ '' ('' @ b @ '')'' @ sq
                           @ '' in mod file'')
      | UninstallingModSwfOriginalElementNotFound \<Rightarrow>
          fmt2 e n (\<lambda>a b. ''Not found orig element '' @ sq @ a @ sq @ '' in '' @ sq @ b @ sq)
      | UninstallingModSwfElementNotFound \<Rightarrow>
          fmt2 e n (\<lambda>a b. ''Not found mod element '' @ sq @ a @ sq @ '' in '' @ sq @ b @ sq)
      | _ \<Rightarrow> Some [])"

text \<open>The entry appended to \<open>errors\<close>: the message, or \<open>repr(notif)\<close> when it is empty.\<close>

definition error_entry :: "env \<Rightarrow> Notification \<Rightarrow> string option" where
  "error_entry e n =
     (case error_string e n of
        None \<Rightarrow> None
      | Some string \<Rightarrow> Some (if string \<noteq> [] then string else py_repr e n))"

text \<open>The loop over the copied buffer; \<open>None\<close> when an entry raised.\<close>

fun error_entries :: "env \<Rightarrow> Notification list \<Rightarrow> string list \<Rightarrow> string list option" where
  "error_entries e [] acc = Some acc"
| "error_entries e (notif # rest) acc =
     (case error_entry e notif of
        None \<Rightarrow> None
      | Some entry \<Rightarrow> error_entries e rest (acc @ [entry]))"

text \<open>The second loop: \<open>string += f"{error}\n"\<close>.\<close>

fun join_lines :: "string list \<Rightarrow> string \<Rightarrow> string" where
  "join_lines [] string = string"
| "join_lines (error # rest) string = join_lines rest (string @ error @ [CHR 0x0A])"

definition showErrorNotifications :: "env \<Rightarrow> ModLoader \<Rightarrow> exc option \<times> ModLoader" where
  "showErrorNotifications e s =
     (if errors s \<noteq> []
      then (let errorsNotifications = errors s;
                s1 = s\<lparr>errors := []\<rparr>
            in case error_entries e errorsNotifications [] of
                 None \<Rightarrow> (Some IndexError, s1)
               | Some errs \<Rightarrow>
                   (if errs \<noteq> [] then (None, showError ''Errors:'' (join_lines errs []) s1)
                    else (None, s1)))
      else (None, s))"

text \<open>The content of the conflict dialog: one line per conflicting hash.\<close>

fun conflict_content :: "env \<Rightarrow> (arg \<rightharpoonup> ModClass) \<Rightarrow> arg list \<Rightarrow> string \<Rightarrow> string" where
  "conflict_content e m [] content = content"
| "conflict_content e m (modConflictHash # rest) content =
     conflict_content e m rest
       (case m modConflictHash of
          Some md \<Rightarrow> content @ [CHR 0x0A] @ ''- '' @ name md
        | None \<Rightarrow> content @ [CHR 0x0A] @ ''- UNKNOWN MOD: '' @ py_str e modConflictHash)"

text \<open>What a \<open>for\<close> loop over the value iterates: a list's elements, a string's characters.\<close>

definition py_iter :: "arg \<Rightarrow> arg list option" where
  "py_iter a =
     (case a of AStrs xs \<Rightarrow> Some (map AStr xs) | AStr s \<Rightarrow> Some (map (\<lambda>c. AStr [c]) s)
      | _ \<Rightarrow> None)"

text \<open>
  The two \<open>Finished\<close> branches: the mod's flag is set, the widgets refresh
  (\<open>selectedModButton.updateData()\<close> raises when no button is selected), the progress
  dialog hides and the buffered errors are shown.
\<close>

definition finished :: "env \<Rightarrow> bool \<Rightarrow> arg \<Rightarrow> ModLoader \<Rightarrow> exc option \<times> ModLoader" where
  "finished e flag modHash s =
     (case mods (modsWidget s) modHash of
        None \<Rightarrow> (Some KeyError, s)
      | Some modClass \<Rightarrow>
          (let s1 = s\<lparr>modsWidget := (modsWidget s)
                         \<lparr>mods := (mods (modsWidget s))(modHash \<mapsto> modClass\<lparr>installed := flag\<rparr>)\<rparr>\<rparr>
           in if selectedModButton (modsWidget s1) = None then (Some AttributeError, s1)
              else showErrorNotifications e (pd_hide s1)))"

definition soft_errors :: "NotificationType list" where
  "soft_errors =
     [CompileModSourcesSpriteHasNoSymbolclass, CompileModSourcesSpriteEmpty,
      CompileModSourcesSpriteNotFoundInFolder, CompileModSourcesUnsupportedCategory,
      CompileModSourcesUnknownFile, CompileModSourcesSaveError,
      LoadingModIsEmpty,
      InstallingModNotFoundFileElement, InstallingModNotFoundGameSwf,
      InstallingModSwfScriptError, InstallingModSwfSoundSymbolclassNotExist,
      InstallingModSoundNotExist, InstallingModSwfSpriteSymbolclassNotExist,
      InstallingModSpriteNotExist,
      UninstallingModSwfOriginalElementNotFound, UninstallingModSwfElementNotFound]"

definition handleNotification :: "env \<Rightarrow> Notification \<Rightarrow> ModLoader \<Rightarrow> exc option \<times> ModLoader" where
  "handleNotification e notification s =
     (let ntype = notificationType notification; xs = args notification
      in if ntype = LoadingMod then
           arg_at xs 0 s (\<lambda>modPath.
             (None, s\<lparr>loadingText := ''Loading mod '' @ sq
                        @ (if truthy modPath then py_str e modPath else ''from cache'') @ sq\<rparr>))
         else if ntype = ModElementsCount then
           unpack2 xs s (\<lambda>modHash count. (None, pd_setMaximum count s))
         else if ntype = ModConflictSearchInSwf then
           unpack2 xs s (\<lambda>modHash swfName.
             (None, pd_addValue (pd_setContent (AStr (''Searching in: '' @ py_str e swfName)) s)))
         else if ntype = ModConflictNotFound then
           unpack1 xs s (\<lambda>modHash.
             (let s1 = pd_setValue 0 s in (None, s1\<lparr>sent := sent s1 @ [CmdInstallMod modHash]\<rparr>)))
         else if ntype = ModConflict then
           unpack2 xs s (\<lambda>modHash modConflictHashes.
             (let s1 = s\<lparr>acceptDialog := (acceptDialog s)\<lparr>ad_title := ''Conflict mods!''\<rparr>\<rparr>
              in case py_iter modConflictHashes of
                   None \<Rightarrow> (Some TypeError, s1)
                 | Some hs \<Rightarrow>
                     (let content = conflict_content e (mods (modsWidget s1)) hs ''Mods:'';
                          s2 = s1\<lparr>acceptDialog := (acceptDialog s1)
                                  \<lparr>ad_content := content, ad_accept := [CmdInstallMod modHash]\<rparr>\<rparr>;
                          s3 = pd_hide s2
                      in (None, s3\<lparr>acceptDialog := (acceptDialog s3)\<lparr>ad_shown := True\<rparr>\<rparr>))))
         else if ntype = InstallingModSwf then
           unpack2 xs s (\<lambda>modHash swfName.
             (None, pd_setContent (AStr (''Open game file: '' @ py_str e swfName)) s))
         else if ntype = InstallingModSwfSprite then
           unpack2 xs s (\<lambda>modHash sprite.
             (None, pd_addValue (pd_setContent (AStr (''Installing sprite: '' @ py_str e sprite)) s)))
         else if ntype = InstallingModSwfSound then
           unpack2 xs s (\<lambda>modHash sound.
             (None, pd_addValue (pd_setContent (AStr (''Installing sound: '' @ py_str e sound)) s)))
         else if ntype = InstallingModFile then
           unpack2 xs s (\<lambda>modHash fileName.
             (None, pd_addValue (pd_setContent (AStr (''Installing file: '' @ py_str e fileName)) s)))
         else if ntype = InstallingModFileCache then
           unpack2 xs s (\<lambda>modHash fileName. (None, pd_addValue (pd_setContent fileName s)))
         else if ntype = InstallingModFinished then
           arg_at xs 0 s (\<lambda>modHash. finished e True modHash s)
         else if ntype = UninstallingModSwf then
           unpack2 xs s (\<lambda>modHash swfName. (None, pd_setContent swfName s))
         else if ntype = UninstallingModSwfSprite then
           unpack2 xs s (\<lambda>modHash sprite. (None, pd_addValue (pd_setContent sprite s)))
         else if ntype = UninstallingModSwfSound then
           unpack2 xs s (\<lambda>modHash sprite. (None, pd_addValue (pd_setContent sprite s)))
         else if ntype = UninstallingModFile then
           unpack2 xs s (\<lambda>modHash fileName. (None, pd_addValue (pd_setContent fileName s)))
         else if ntype = UninstallingModFinished then
           arg_at xs 0 s (\<lambda>modHash. finished e False modHash s)
         else if ntype \<in> set soft_errors then
           (None, s\<lparr>errors := errors s @ [notification]\<rparr>)
         else (None, s))"

text \<open>\<open>modData.get(key, default)\<close> and the keyword arguments handed to \<open>addMod\<close>.\<close>

definition dict_get :: "modData \<Rightarrow> string \<Rightarrow> arg \<Rightarrow> arg" where
  "dict_get d k dflt = (case map_of d k of Some v \<Rightarrow> v | None \<Rightarrow> dflt)"

definition addMod_kwargs :: "modData \<Rightarrow> modData" where
  "addMod_kwargs d =
     [(''gameVersion'', dict_get d ''gameVersion'' (AStr [])),
      (''name'', dict_get d ''name'' (AStr [])),
      (''author'', dict_get d ''author'' (AStr [])),
      (''version'', dict_get d ''version'' (AStr [])),
      (''description'', dict_get d ''description'' (AStr [])),
      (''tags'', dict_get d ''tags'' (AStrs [])),
      (''previewsPaths'', dict_get d ''previewsPaths'' (AStrs [])),
      (''hash'', dict_get d ''hash'' (AStr [])),
      (''platform'', dict_get d ''platform'' (AStr [])),
      (''installed'', dict_get d ''installed'' (ABool False)),
      (''currentVersion'', dict_get d ''currentVersion'' (ABool False)),
      (''modFileExist'', dict_get d ''modFileExist'' (ABool False))]"

definition started :: "string \<Rightarrow> string \<Rightarrow> arg \<Rightarrow> bool \<Rightarrow> arg \<Rightarrow> ModLoader \<Rightarrow> exc option \<times> ModLoader" where
  "started verb content0 content flag modHash s =
     (if flag
      then (case mods (modsWidget s) modHash of
              None \<Rightarrow> (Some KeyError, s)
            | Some modClass \<Rightarrow>
                (None, pd_show (pd_setContent content
                   (pd_setTitle (verb @ sq @ name modClass @ sq @ content0) s))))
      else (None, s))"

text \<open>
  \<open>controllerHandler\<close>, run by the timer. \<open>data\<close> is what \<open>controller.getData()\<close>
  returned at this tick. Console output (\<open>print\<close>) is not part of the state.
\<close>

definition controllerHandler :: "env \<Rightarrow> Environment option \<Rightarrow> ModLoader \<Rightarrow> exc option \<times> ModLoader" where
  "controllerHandler e data s =
     (if \<not> controller s then (None, s)
      else case data of
        None \<Rightarrow> (None, s)
      | Some (EnvNotification notification) \<Rightarrow> handleNotification e notification s
      | Some EnvReloadMods \<Rightarrow> (None, s\<lparr>modsWidget := removeAllMods e (modsWidget s)\<rparr>)
      | Some (EnvGetModsData ds) \<Rightarrow>
          showErrorNotifications e
            (setModsScreen (s\<lparr>modsWidget := foldl (\<lambda>w d. addMod e (addMod_kwargs d) w) (modsWidget s) ds\<rparr>))
      | Some (EnvGetModConflict searching modHash) \<Rightarrow>
          started ''Searching conflicts '' ''...'' (AStr ''Searching...'') searching modHash s
      | Some (EnvInstallMod installing modHash) \<Rightarrow>
          started ''Installing mod '' ''...'' (AStr ''Loading mod...'') installing modHash s
      | Some (EnvUninstallMod uninstalling modHash) \<Rightarrow>
          started ''Uninstalling mod '' ''...'' (AStr []) uninstalling modHash s
      | Some EnvDeleteMod \<Rightarrow> (None, s)
      | Some EnvSetModsPath \<Rightarrow> (None, s)
      | Some EnvInstallBaseMod \<Rightarrow> (None, s\<lparr>loadingText := ''Installing base mod...''\<rparr>)
      | Some (EnvOther k) \<Rightarrow> (None, s))"

text \<open>
  The timer runs the handler once per tick, each tick with the next value the controller
  delivers; an exception ends that tick only.
\<close>

fun ticks :: "env \<Rightarrow> Environment list \<Rightarrow> ModLoader \<Rightarrow> ModLoader" where
  "ticks e [] s = s"
| "ticks e (d # ds) s = ticks e ds (snd (controllerHandler e (Some d) s))"

text \<open>
  The deliveries at which the handler reaches \<open>showErrorNotifications\<close> without
  raising before it: the list of mods data, and the end of an install or uninstall whose
  first argument is a mod the widget knows, while a mod button is selected.
\<close>

definition reaches_report :: "ModLoader \<Rightarrow> Environment \<Rightarrow> bool" where
  "reaches_report s d =
     (case d of
        EnvGetModsData ds \<Rightarrow> True
      | EnvNotification n \<Rightarrow>
          (notificationType n = InstallingModFinished \<or>
           notificationType n = UninstallingModFinished) \<and>
          (case args n of
             [] \<Rightarrow> False
           | modHash # rest \<Rightarrow>
               mods (modsWidget s) modHash \<noteq> None \<and> selectedModButton (modsWidget s) \<noteq> None)
      | _ \<Rightarrow> False)"

text \<open>
  A path resides inside a directory when it is the directory or continues it after a
  separator. Both arguments are absolute paths.
\<close>

definition resides_inside :: "string \<Rightarrow> string \<Rightarrow> string \<Rightarrow> bool" where
  "resides_inside sps dir p = (p = dir \<or> list_ex (\<lambda>c. startswith p (dir @ [c])) sps)"

section \<open>An example installation\<close>

text \<open>
  A window as \<open>__init__\<close> leaves it once the engine thread has set the controller, and
  an environment with POSIX paths: the application in \<open>/app\<close>, two files to import.
\<close>

definition example_window :: ModLoader where
  "example_window =
     \<lparr>modsDir = [(''a.bmod'', ''old'')], errors = [], controller = True, sent = [],
      loadingText = ''Loading mods sources...'', frame = LoadingFrame,
      modsWidget = \<lparr>mods = Map.empty, selectedModButton = None\<rparr>,
      progressDialog = \<lparr>pd_shown = False, pd_title = [], pd_content = AStr [], pd_value = 0,
                        pd_maximum = AInt 0\<rparr>,
      acceptDialog = \<lparr>ad_shown = False, ad_title = [], ad_content = [], ad_accept = []\<rparr>,
      buttonsDialog = \<lparr>bd_shown = False, bd_title = [], bd_content = [], bd_buttons = []\<rparr>,
      downloads = [], extractCalls = []\<rparr>"

definition example_env :: env where
  "example_env =
     \<lparr>MOD_FILE_FORMAT = ''bmod'', modsPath = ''/app/Mods'', seps = ''/'',
      abspath = (\<lambda>p. p),
      outside = map_of [(''/downloads/a.bmod'', ''new''), (''/app/ModsBackup/a.bmod'', ''kept'')],
      urlretrieve = (\<lambda>u. DownloadRefused (LibraryError ''URLError'')),
      archive_namelist = (\<lambda>f a. Inr []),
      archive_extract = (\<lambda>f a n. Inr []),
      format_exception = (\<lambda>x. ''Traceback''),
      str_value = (\<lambda>a. ''?''),
      py_repr = (\<lambda>n. ''<Notification>''),
      addMod = (\<lambda>d m. m),
      removeAllMods = (\<lambda>m. m\<lparr>mods := Map.empty\<rparr>)\<rparr>"

text \<open>An environment where the download gives a zip archive of two entries, and one
  where it gives a page of text.\<close>

definition example_zip_env :: env where
  "example_zip_env =
     example_env\<lparr>urlretrieve := (\<lambda>u. Downloaded ''PK-archive''),
                 archive_namelist := (\<lambda>f a. Inr [''readme.txt'', ''skin.bmod'']),
                 archive_extract := (\<lambda>f a n. Inr (''mod:'' @ n))\<rparr>"


text \<open>A window that shows one mod, selected, and three engine notifications about it.\<close>

definition example_mods_window :: ModLoader where
  "example_mods_window =
     example_window\<lparr>modsWidget :=
       \<lparr>mods = [AStr ''h1'' \<mapsto> \<lparr>name = ''Skin'', installed = False\<rparr>],
        selectedModButton = Some (AStr ''h1'')\<rparr>\<rparr>"

definition example_soft_errors :: "Notification list" where
  "example_soft_errors =
     [\<lparr>notificationType = LoadingModIsEmpty, args = [AStr ''h1'', AStr ''skin.bmod'']\<rparr>,
      \<lparr>notificationType = InstallingModNotFoundGameSwf, args = [AStr ''h1'', AStr ''UI.swf'']\<rparr>,
      \<lparr>notificationType = CompileModSourcesUnknownFile, args = [AStr ''h1'', AStr ''x.png'']\<rparr>]"



text \<open>
  The same window with the three notifications buffered and no mod button selected, as
  after a reload has rebuilt the list of mods.
\<close>

definition example_unselected_window :: ModLoader where
  "example_unselected_window =
     example_window\<lparr>errors := example_soft_errors,
       modsWidget :=
         \<lparr>mods = [AStr ''h1'' \<mapsto> \<lparr>name = ''Skin'', installed = False\<rparr>],
          selectedModButton = None\<rparr>\<rparr>"

section \<open>Properties of the import queue\<close>

lemma urlQueue_pushes: "urlQueue (foldl addUrl q xs) = urlQueue q @ xs"
  by (induction xs arbitrary: q) (simp_all add: addUrl_def Let_def)

lemma fileQueue_pushes: "fileQueue (foldl addFile q xs) = fileQueue q @ xs"
  by (induction xs arbitrary: q) (simp_all add: addFile_def Let_def)

lemma iterUrl_next_Nil:
  "pc \<noteq> GenDone \<Longrightarrow> urlQueue q = [] \<Longrightarrow>
     \<exists>q'. iterUrl_next pc q = (None, GenDone, q') \<and> urlQueue q' = [] \<and> \<not> readUrlQueue q'"
  by (cases pc) (simp_all add: Let_def)

lemma iterUrl_next_Cons:
  "pc \<noteq> GenDone \<Longrightarrow> urlQueue q = x # xs \<Longrightarrow>
     \<exists>q'. iterUrl_next pc q = (Some x, GenSuspended, q') \<and> urlQueue q' = xs"
  by (cases pc) (simp_all add: Let_def)

lemma iterFile_next_Nil:
  "pc \<noteq> GenDone \<Longrightarrow> fileQueue q = [] \<Longrightarrow>
     \<exists>q'. iterFile_next pc q = (None, GenDone, q') \<and> fileQueue q' = [] \<and> \<not> readFileQueue q'"
  by (cases pc) (simp_all add: Let_def)

lemma iterFile_next_Cons:
  "pc \<noteq> GenDone \<Longrightarrow> fileQueue q = x # xs \<Longrightarrow>
     \<exists>q'. iterFile_next pc q = (Some x, GenSuspended, q') \<and> fileQueue q' = xs"
  by (cases pc) (simp_all add: Let_def)

lemma iterUrl_all_drains:
  "pc \<noteq> GenDone \<Longrightarrow> urlQueue q = xs \<Longrightarrow>
     fst (iterUrl_all pc q) = xs \<and> urlQueue (snd (iterUrl_all pc q)) = [] \<and>
     \<not> readUrlQueue (snd (iterUrl_all pc q))"
proof (induction xs arbitrary: pc q)
  case Nil
  from iterUrl_next_Nil [OF Nil] obtain q' where
    "iterUrl_next pc q = (None, GenDone, q')" "urlQueue q' = []" "\<not> readUrlQueue q'" by blast
  then show ?case by (simp add: iterUrl_all.simps [of pc q])
next
  case (Cons x xs)
  from iterUrl_next_Cons [OF Cons.prems] obtain q' where
    st: "iterUrl_next pc q = (Some x, GenSuspended, q')" "urlQueue q' = xs" by blast
  from Cons.IH [of GenSuspended q'] st show ?case
    by (simp add: iterUrl_all.simps [of pc q] split_beta)
qed

lemma iterFile_all_drains:
  "pc \<noteq> GenDone \<Longrightarrow> fileQueue q = xs \<Longrightarrow>
     fst (iterFile_all pc q) = xs \<and> fileQueue (snd (iterFile_all pc q)) = [] \<and>
     \<not> readFileQueue (snd (iterFile_all pc q))"
proof (induction xs arbitrary: pc q)
  case Nil
  from iterFile_next_Nil [OF Nil] obtain q' where
    "iterFile_next pc q = (None, GenDone, q')" "fileQueue q' = []" "\<not> readFileQueue q'" by blast
  then show ?case by (simp add: iterFile_all.simps [of pc q])
next
  case (Cons x xs)
  from iterFile_next_Cons [OF Cons.prems] obtain q' where
    st: "iterFile_next pc q = (Some x, GenSuspended, q')" "fileQueue q' = xs" by blast
  from Cons.IH [of GenSuspended q'] st show ?case
    by (simp add: iterFile_all.simps [of pc q] split_beta)
qed

lemma iterUrl_take_prefix:
  "pc \<noteq> GenDone \<Longrightarrow> k \<le> length (urlQueue q) \<Longrightarrow>
     fst (iterUrl_take k pc q) = take k (urlQueue q) \<and>
     urlQueue (snd (snd (iterUrl_take k pc q))) = drop k (urlQueue q)"
proof (induction k arbitrary: pc q)
  case 0
  then show ?case by simp
next
  case (Suc k)
  then obtain x xs where q: "urlQueue q = x # xs" by (cases "urlQueue q") auto
  from iterUrl_next_Cons [OF Suc.prems(1) q] obtain q' where
    st: "iterUrl_next pc q = (Some x, GenSuspended, q')" "urlQueue q' = xs" by blast
  from Suc.IH [of GenSuspended q'] Suc.prems q st show ?case
    by (simp add: split_beta)
qed

lemma iterFile_take_prefix:
  "pc \<noteq> GenDone \<Longrightarrow> k \<le> length (fileQueue q) \<Longrightarrow>
     fst (iterFile_take k pc q) = take k (fileQueue q) \<and>
     fileQueue (snd (snd (iterFile_take k pc q))) = drop k (fileQueue q)"
proof (induction k arbitrary: pc q)
  case 0
  then show ?case by simp
next
  case (Suc k)
  then obtain x xs where q: "fileQueue q = x # xs" by (cases "fileQueue q") auto
  from iterFile_next_Cons [OF Suc.prems(1) q] obtain q' where
    st: "iterFile_next pc q = (Some x, GenSuspended, q')" "fileQueue q' = xs" by blast
  from Suc.IH [of GenSuspended q'] Suc.prems q st show ?case
    by (simp add: split_beta)
qed

text \<open>
  Claim C1. Items pushed (\<open>addUrl\<close>, \<open>addFile\<close>) to a fresh queue before a signal is
  registered are all still there when the signal is registered; a drain started after
  that yields exactly the pushed items, each once and in push order, and leaves the queue
  empty with the drain flag cleared. The items are removed one by one as they are
  yielded: after the first \<open>k\<close> calls of \<open>next\<close> the generator has yielded the first
  \<open>k\<close> pushed items and the queue holds the remaining ones.
\<close>

theorem drain_yields_pushed_in_order:
  "fst (iterUrl_all GenCreated (setUrlSignal sg (foldl addUrl ImportQueue_init xs))) = xs \<and>
   urlQueue (snd (iterUrl_all GenCreated (setUrlSignal sg (foldl addUrl ImportQueue_init xs)))) = [] \<and>
   \<not> readUrlQueue (snd (iterUrl_all GenCreated (setUrlSignal sg (foldl addUrl ImportQueue_init xs)))) \<and>
   (\<forall>k\<le>length xs.
      fst (iterUrl_take k GenCreated (setUrlSignal sg (foldl addUrl ImportQueue_init xs))) = take k xs \<and>
      urlQueue (snd (snd (iterUrl_take k GenCreated (setUrlSignal sg (foldl addUrl ImportQueue_init xs)))))
        = drop k xs) \<and>
   fst (iterFile_all GenCreated (setFileSignal sg (foldl addFile ImportQueue_init xs))) = xs \<and>
   fileQueue (snd (iterFile_all GenCreated (setFileSignal sg (foldl addFile ImportQueue_init xs)))) = [] \<and>
   \<not> readFileQueue (snd (iterFile_all GenCreated (setFileSignal sg (foldl addFile ImportQueue_init xs)))) \<and>
   (\<forall>k\<le>length xs.
      fst (iterFile_take k GenCreated (setFileSignal sg (foldl addFile ImportQueue_init xs))) = take k xs \<and>
      fileQueue (snd (snd (iterFile_take k GenCreated (setFileSignal sg (foldl addFile ImportQueue_init xs)))))
        = drop k xs)"
proof -
  let ?qu = "setUrlSignal sg (foldl addUrl ImportQueue_init xs)"
  let ?qf = "setFileSignal sg (foldl addFile ImportQueue_init xs)"
  have u: "urlQueue ?qu = xs"
    by (simp add: setUrlSignal_def urlQueue_pushes ImportQueue_init_def)
  have f: "fileQueue ?qf = xs"
    by (simp add: setFileSignal_def fileQueue_pushes ImportQueue_init_def)
  have pc: "GenCreated \<noteq> GenDone" by simp
  note du = iterUrl_all_drains [OF pc u]
  note df = iterFile_all_drains [OF pc f]
  have tu: "\<forall>k\<le>length xs. fst (iterUrl_take k GenCreated ?qu) = take k xs \<and>
      urlQueue (snd (snd (iterUrl_take k GenCreated ?qu))) = drop k xs"
    using iterUrl_take_prefix [OF pc, of _ ?qu] u by simp
  have tf: "\<forall>k\<le>length xs. fst (iterFile_take k GenCreated ?qf) = take k xs \<and>
      fileQueue (snd (snd (iterFile_take k GenCreated ?qf))) = drop k xs"
    using iterFile_take_prefix [OF pc, of _ ?qf] f by simp
  from du df tu tf show ?thesis by blast
qed

theorem drain_yields_pushed_in_order_witness:
  "fst (iterUrl_all GenCreated (setUrlSignal 0 (foldl addUrl ImportQueue_init [''u1'', ''u2'', ''u3'']))) =
     [''u1'', ''u2'', ''u3''] \<and>
   fst (iterUrl_take 2 GenCreated (setUrlSignal 0 (foldl addUrl ImportQueue_init [''u1'', ''u2'', ''u3''])))
     = [''u1'', ''u2''] \<and>
   urlQueue (snd (snd (iterUrl_take 2 GenCreated
     (setUrlSignal 0 (foldl addUrl ImportQueue_init [''u1'', ''u2'', ''u3''])))))  = [''u3''] \<and>
   fst (iterFile_take 2 GenCreated (setFileSignal 0 (foldl addFile ImportQueue_init [''u1'', ''u2'', ''u3''])))
     = [''u1'', ''u2'']"
proof -
  note t = drain_yields_pushed_in_order [of 0 "[''u1'', ''u2'', ''u3'']"]
  have k: "(2::nat) \<le> length [''u1'', ''u2'', ''u3'']" by simp
  from t have a: "fst (iterUrl_all GenCreated (setUrlSignal 0 (foldl addUrl ImportQueue_init [''u1'', ''u2'', ''u3'']))) =
     [''u1'', ''u2'', ''u3'']" by blast
  from t k have b: "fst (iterUrl_take 2 GenCreated (setUrlSignal 0 (foldl addUrl ImportQueue_init [''u1'', ''u2'', ''u3''])))
     = take 2 [''u1'', ''u2'', ''u3''] \<and>
     urlQueue (snd (snd (iterUrl_take 2 GenCreated
     (setUrlSignal 0 (foldl addUrl ImportQueue_init [''u1'', ''u2'', ''u3''])))))  = drop 2 [''u1'', ''u2'', ''u3'']"
    by blast
  from t k have c: "fst (iterFile_take 2 GenCreated (setFileSignal 0 (foldl addFile ImportQueue_init [''u1'', ''u2'', ''u3''])))
     = take 2 [''u1'', ''u2'', ''u3'']" by blast
  have tk: "take 2 [''u1'', ''u2'', ''u3''] = [''u1'', ''u2'']" "drop 2 [''u1'', ''u2'', ''u3''] = [''u3'']"
    by simp_all
  from a b c show ?thesis unfolding tk by blast
qed

section \<open>Properties of file import\<close>

lemma map_of_remove_file:
  "map_of (remove_file d n) m = (if m = n then None else map_of d m)"
  by (induction d) (auto simp: remove_file_def)

lemma map_of_write_file:
  "map_of (write_file d n c) m = (if m = n then Some c else map_of d m)"
  using map_of_remove_file [of d n m] by (simp add: write_file_def remove_file_def)

lemma candidate_not_special: "candidate stem ext i \<notin> set [[], ''.'', ''..'']"
proof -
  have "CHR ''('' \<in> set (candidate stem ext i)" by (simp add: candidate_def)
  then show ?thesis by auto
qed

lemma path_exists_candidate:
  "path_exists d (candidate stem ext i) \<longleftrightarrow> map_of d (candidate stem ext i) \<noteq> None"
  using candidate_not_special [of stem ext i] by (simp add: path_exists_def)

lemma free_index_first_free:
  "i \<le> free_index d stem ext i \<and>
   \<not> path_exists d (candidate stem ext (free_index d stem ext i)) \<and>
   (\<forall>j. i \<le> j \<and> j < free_index d stem ext i \<longrightarrow> path_exists d (candidate stem ext j))"
proof (induction d stem ext i rule: free_index.induct)
  case (1 d stem ext i)
  show ?case
  proof (cases "path_exists d (candidate stem ext i)")
    case True
    then have eq: "free_index d stem ext i = free_index d stem ext (i + 1)"
      by (simp add: free_index.simps [of d stem ext i])
    from 1 [OF True] have ih: "i + 1 \<le> free_index d stem ext (i + 1)"
      "\<not> path_exists d (candidate stem ext (free_index d stem ext (i + 1)))"
      "\<forall>j. i + 1 \<le> j \<and> j < free_index d stem ext (i + 1) \<longrightarrow> path_exists d (candidate stem ext j)"
      by blast+
    have "\<forall>j. i \<le> j \<and> j < free_index d stem ext (i + 1) \<longrightarrow> path_exists d (candidate stem ext j)"
    proof (intro allI impI)
      fix j assume j: "i \<le> j \<and> j < free_index d stem ext (i + 1)"
      show "path_exists d (candidate stem ext j)"
      proof (cases "j = i")
        case True with \<open>path_exists d (candidate stem ext i)\<close> show ?thesis by simp
      next
        case False with j ih(3) show ?thesis by simp
      qed
    qed
    with ih eq show ?thesis by simp
  next
    case False
    then show ?thesis by (auto simp: free_index.simps [of d stem ext i])
  qed
qed

lemma os_path_splitext_join: "os_path_splitext p = (stem, ext) \<Longrightarrow> stem @ ext = p"
  by (auto simp: os_path_splitext_def Let_def split: if_splits)

lemma modsDir_reloadMods: "modsDir (snd (reloadMods s)) = modsDir s"
  by (simp add: reloadMods_def setLoadingScreen_def Let_def)

lemma fileImport_keeps_files:
  "map_of (modsDir s) m = Some c \<Longrightarrow> map_of (modsDir (snd (fileImport e s filePath))) m = Some c"
proof -
  assume m: "map_of (modsDir s) m = Some c"
  let ?base = "os_path_split_tail (seps e) filePath"
  let ?stem = "fst (os_path_splitext ?base)"
  let ?ext = "snd (os_path_splitext ?base)"
  let ?n = "free_index (modsDir s) ?stem ?ext 1"
  have a: "m \<noteq> candidate ?stem ?ext ?n"
    using free_index_first_free [of 1 "modsDir s" ?stem ?ext] m
    by (auto simp: path_exists_candidate)
  have b: "\<not> path_exists (modsDir s) ?base \<Longrightarrow> m \<noteq> ?base"
    using m by (auto simp: path_exists_def)
  show ?thesis
    using m a b
    by (auto simp: fileImport_def Let_def modsDir_reloadMods map_of_write_file split: option.splits)
qed

lemma fileImport_modsDir:
  "\<not> startswith (abspath e filePath) (abspath e (modsPath e)) \<Longrightarrow>
   outside e filePath = Some content \<Longrightarrow>
   os_path_split_tail (seps e) filePath = base \<Longrightarrow>
   os_path_splitext base = (stem, ext) \<Longrightarrow>
   modsDir (snd (fileImport e s filePath)) =
     write_file (modsDir s)
       (if path_exists (modsDir s) base
        then candidate stem ext (free_index (modsDir s) stem ext 1) else base) content"
  by (simp add: fileImport_def Let_def modsDir_reloadMods)

lemma example_paths:
  "\<not> startswith (abspath example_env ''/downloads/a.bmod'') (abspath example_env (modsPath example_env))"
  "outside example_env ''/downloads/a.bmod'' = Some ''new''"
  "os_path_split_tail (seps example_env) ''/downloads/a.bmod'' = ''a.bmod''"
  "os_path_splitext ''a.bmod'' = (''a'', ''.bmod'')"
  by (simp_all add: example_env_def startswith_def os_path_split_tail_def os_path_splitext_def)

lemma example_first_import:
  "modsDir (snd (fileImport example_env example_window ''/downloads/a.bmod'')) =
     [(''a (1).bmod'', ''new''), (''a.bmod'', ''old'')]"
proof -
  have d: "modsDir example_window = [(''a.bmod'', ''old'')]"
    by (simp add: example_window_def)
  have f: "free_index [(''a.bmod'', ''old'')] ''a'' ''.bmod'' 1 = 1"
    by (simp add: free_index.simps candidate_def path_exists_def string_of_nat.simps digit_char_def)
  have c: "candidate ''a'' ''.bmod'' 1 = ''a (1).bmod''"
    by (simp add: candidate_def string_of_nat.simps digit_char_def)
  show ?thesis
    unfolding fileImport_modsDir [OF example_paths] d f c
    by (simp add: path_exists_def write_file_def)
qed

lemma example_second_import:
  "modsDir s = [(''a (1).bmod'', ''new''), (''a.bmod'', ''old'')] \<Longrightarrow>
   modsDir (snd (fileImport example_env s ''/downloads/a.bmod'')) =
     [(''a (2).bmod'', ''new''), (''a (1).bmod'', ''new''), (''a.bmod'', ''old'')]"
proof -
  assume d: "modsDir s = [(''a (1).bmod'', ''new''), (''a.bmod'', ''old'')]"
  have c: "candidate ''a'' ''.bmod'' 1 = ''a (1).bmod''" "candidate ''a'' ''.bmod'' 2 = ''a (2).bmod''"
    by (simp_all add: candidate_def string_of_nat.simps digit_char_def)
  have f: "free_index [(''a (1).bmod'', ''new''), (''a.bmod'', ''old'')] ''a'' ''.bmod'' 1 = 2"
    by (simp add: free_index.simps candidate_def path_exists_def string_of_nat.simps digit_char_def)
  show ?thesis
    unfolding fileImport_modsDir [OF example_paths] d f c
    by (simp add: path_exists_def write_file_def)
qed

text \<open>
  Claim C2. A file of the mods directory is never overwritten by \<open>fileImport\<close>. When
  the basename of the imported file names a file of the mods directory, the copy is
  written under the basename with \<open>" (n)"\<close> put before the extension, where \<open>n\<close> is
  the first counter from 1 on whose name is unused.
\<close>

theorem fileImport_counter_name:
  "(\<forall>m c. map_of (modsDir s) m = Some c \<longrightarrow>
           map_of (modsDir (snd (fileImport e s filePath))) m = Some c) \<and>
   (\<not> startswith (abspath e filePath) (abspath e (modsPath e)) \<and>
    outside e filePath = Some content \<and>
    map_of (modsDir s) (os_path_split_tail (seps e) filePath) \<noteq> None \<and>
    os_path_splitext (os_path_split_tail (seps e) filePath) = (stem, ext) \<longrightarrow>
    stem @ ext = os_path_split_tail (seps e) filePath \<and>
    (\<exists>n\<ge>1.
       modsDir (snd (fileImport e s filePath)) =
         write_file (modsDir s) (candidate stem ext n) content \<and>
       map_of (modsDir s) (candidate stem ext n) = None \<and>
       (\<forall>j. 1 \<le> j \<and> j < n \<longrightarrow> map_of (modsDir s) (candidate stem ext j) \<noteq> None) \<and>
       map_of (modsDir (snd (fileImport e s filePath))) (candidate stem ext n) = Some content))"
proof (intro conjI allI impI)
  fix m c assume "map_of (modsDir s) m = Some c"
  then show "map_of (modsDir (snd (fileImport e s filePath))) m = Some c"
    by (rule fileImport_keeps_files)
next
  assume h: "\<not> startswith (abspath e filePath) (abspath e (modsPath e)) \<and>
    outside e filePath = Some content \<and>
    map_of (modsDir s) (os_path_split_tail (seps e) filePath) \<noteq> None \<and>
    os_path_splitext (os_path_split_tail (seps e) filePath) = (stem, ext)"
  then show "stem @ ext = os_path_split_tail (seps e) filePath"
    by (simp add: os_path_splitext_join)
next
  assume h: "\<not> startswith (abspath e filePath) (abspath e (modsPath e)) \<and>
    outside e filePath = Some content \<and>
    map_of (modsDir s) (os_path_split_tail (seps e) filePath) \<noteq> None \<and>
    os_path_splitext (os_path_split_tail (seps e) filePath) = (stem, ext)"
  let ?n = "free_index (modsDir s) stem ext 1"
  have ex: "path_exists (modsDir s) (os_path_split_tail (seps e) filePath)"
    using h by (simp add: path_exists_def)
  have dir: "modsDir (snd (fileImport e s filePath)) =
      write_file (modsDir s) (candidate stem ext ?n) content"
    using h ex fileImport_modsDir [of e filePath content _ stem ext s] by simp
  note ff = free_index_first_free [of 1 "modsDir s" stem ext]
  have "1 \<le> ?n" using ff by blast
  moreover have "map_of (modsDir s) (candidate stem ext ?n) = None"
    using ff by (simp add: path_exists_candidate)
  moreover have "\<forall>j. 1 \<le> j \<and> j < ?n \<longrightarrow> map_of (modsDir s) (candidate stem ext j) \<noteq> None"
    using ff by (simp add: path_exists_candidate)
  moreover have "map_of (modsDir (snd (fileImport e s filePath))) (candidate stem ext ?n) = Some content"
    by (simp add: dir map_of_write_file)
  ultimately show "\<exists>n\<ge>1.
       modsDir (snd (fileImport e s filePath)) =
         write_file (modsDir s) (candidate stem ext n) content \<and>
       map_of (modsDir s) (candidate stem ext n) = None \<and>
       (\<forall>j. 1 \<le> j \<and> j < n \<longrightarrow> map_of (modsDir s) (candidate stem ext j) \<noteq> None) \<and>
       map_of (modsDir (snd (fileImport e s filePath))) (candidate stem ext n) = Some content"
    using dir by blast
qed

text \<open>
  The example of the specification: with \<open>a.bmod\<close> in the mods directory, importing
  another \<open>a.bmod\<close> gives \<open>a (1).bmod\<close>, and importing it once more \<open>a (2).bmod\<close>.
\<close>

theorem fileImport_counter_name_witness:
  "map_of (modsDir (snd (fileImport example_env example_window ''/downloads/a.bmod''))) ''a.bmod''
     = Some ''old'' \<and>
   (\<exists>n\<ge>1. modsDir (snd (fileImport example_env example_window ''/downloads/a.bmod'')) =
        write_file (modsDir example_window) (candidate ''a'' ''.bmod'' n) ''new'') \<and>
   modsDir (snd (fileImport example_env example_window ''/downloads/a.bmod'')) =
     [(''a (1).bmod'', ''new''), (''a.bmod'', ''old'')] \<and>
   modsDir (snd (fileImport example_env
       (snd (fileImport example_env example_window ''/downloads/a.bmod'')) ''/downloads/a.bmod'')) =
     [(''a (2).bmod'', ''new''), (''a (1).bmod'', ''new''), (''a.bmod'', ''old'')]"
proof -
  note t = fileImport_counter_name [of example_window example_env "''/downloads/a.bmod''"
      "''new''" "''a''" "''.bmod''"]
  have d: "map_of (modsDir example_window) ''a.bmod'' = Some ''old''"
    by (simp add: example_window_def)
  from t d have a: "map_of (modsDir (snd (fileImport example_env example_window
      ''/downloads/a.bmod''))) ''a.bmod'' = Some ''old''"
    by blast
  have h: "\<not> startswith (abspath example_env ''/downloads/a.bmod'')
          (abspath example_env (modsPath example_env)) \<and>
    outside example_env ''/downloads/a.bmod'' = Some ''new'' \<and>
    map_of (modsDir example_window) (os_path_split_tail (seps example_env) ''/downloads/a.bmod'')
      \<noteq> None \<and>
    os_path_splitext (os_path_split_tail (seps example_env) ''/downloads/a.bmod'')
      = (''a'', ''.bmod'')"
    using example_paths d by simp
  from t h have b: "\<exists>n\<ge>1. modsDir (snd (fileImport example_env example_window ''/downloads/a.bmod'')) =
        write_file (modsDir example_window) (candidate ''a'' ''.bmod'' n) ''new''"
    by blast
  from a b example_first_import example_second_import [OF example_first_import]
  show ?thesis by blast
qed

lemma startswith_longer: "startswith p (dir @ [c]) \<Longrightarrow> startswith p dir"
proof -
  assume "startswith p (dir @ [c])"
  then have "take (length dir + 1) p = dir @ [c]" by (simp add: startswith_def)
  then have "take (length dir) (take (length dir + 1) p) = take (length dir) (dir @ [c])" by simp
  then show ?thesis by (simp add: startswith_def)
qed

lemma resides_inside_startswith: "resides_inside sps dir p \<Longrightarrow> startswith p dir"
  by (auto simp: resides_inside_def list_ex_iff dest: startswith_longer) (simp add: startswith_def)

lemma fileImport_inside_noop:
  "resides_inside (seps e) (abspath e (modsPath e)) (abspath e filePath) \<Longrightarrow>
   fileImport e s filePath = (None, s)"
  by (simp add: fileImport_def resides_inside_startswith)

lemma fileImport_proceeds:
  "\<not> startswith (abspath e filePath) (abspath e (modsPath e)) \<Longrightarrow>
   outside e filePath = Some content \<Longrightarrow> controller s \<Longrightarrow>
   fst (fileImport e s filePath) = None \<and>
   sent (snd (fileImport e s filePath)) = sent s @ [CmdReloadMods, CmdGetModsData] \<and>
   (\<exists>fileName. modsDir (snd (fileImport e s filePath)) = write_file (modsDir s) fileName content)"
  by (auto simp: fileImport_def Let_def reloadMods_def setLoadingScreen_def)

text \<open>
  Claim C3 against the code. The early return of \<open>fileImport\<close> tests whether the
  absolute path starts with the characters of the mods directory's path. A file in a
  sibling directory whose name continues that of the mods directory
  (\<open>/app/ModsBackup\<close> beside \<open>/app/Mods\<close>) does not reside inside the mods directory
  and can be read, and its import returns with the window unchanged: nothing is copied
  and no reload is sent.
\<close>

theorem fileImport_sibling_directory_skipped:
  "\<not> resides_inside (seps example_env) (abspath example_env (modsPath example_env))
        (abspath example_env ''/app/ModsBackup/a.bmod'') \<and>
   outside example_env ''/app/ModsBackup/a.bmod'' = Some ''kept'' \<and>
   fileImport example_env example_window ''/app/ModsBackup/a.bmod'' = (None, example_window)"
proof -
  have p: "abspath example_env ''/app/ModsBackup/a.bmod'' = ''/app/ModsBackup/a.bmod''"
    "abspath example_env (modsPath example_env) = ''/app/Mods''"
    "seps example_env = ''/''"
    "outside example_env ''/app/ModsBackup/a.bmod'' = Some ''kept''"
    by (simp_all add: example_env_def)
  have a: "\<not> resides_inside ''/'' ''/app/Mods'' ''/app/ModsBackup/a.bmod''"
    by (simp add: resides_inside_def startswith_def)
  have b: "startswith ''/app/ModsBackup/a.bmod'' ''/app/Mods''"
    by (simp add: startswith_def)
  have c: "fileImport example_env example_window ''/app/ModsBackup/a.bmod'' = (None, example_window)"
    unfolding fileImport_def p using b by simp
  from a c show ?thesis unfolding p by simp
qed

section \<open>Properties of URL import\<close>

lemma takeWhile_upto_colon:
  "CHR '':'' \<notin> set scheme \<Longrightarrow>
   takeWhile (\<lambda>c. c \<noteq> CHR '':'') (scheme @ CHR '':'' # rest) = scheme"
  by (induction scheme) auto

lemma dropWhile_upto_colon:
  "CHR '':'' \<notin> set scheme \<Longrightarrow>
   dropWhile (\<lambda>c. c \<noteq> CHR '':'') (scheme @ CHR '':'' # rest) = CHR '':'' # rest"
  by (induction scheme) auto

lemma py_split1_colon:
  "CHR '':'' \<notin> set scheme \<Longrightarrow> py_split1 CHR '':'' (scheme @ CHR '':'' # rest) = [scheme, rest]"
  by (simp add: py_split1_def takeWhile_upto_colon dropWhile_upto_colon)

lemma splitData_of_colon:
  "CHR '':'' \<notin> set scheme \<Longrightarrow>
   splitData_of (scheme @ '':'' @ rest) = Some (py_split CHR '','' (py_strip CHR ''/'' rest))"
  by (simp add: splitData_of_def py_split1_colon)

lemma splitData_of_None: "splitData_of url = None \<longleftrightarrow> CHR '':'' \<notin> set url"
  by (simp add: splitData_of_def py_split1_def)

lemma downloads_showError [simp]: "downloads (showError t c s) = downloads s"
  by (simp add: showError_def Let_def)

lemma modsDir_showError [simp]: "modsDir (showError t c s) = modsDir s"
  by (simp add: showError_def Let_def)

lemma extractCalls_showError [simp]: "extractCalls (showError t c s) = extractCalls s"
  by (simp add: showError_def Let_def)

lemma import_except_fields [simp]:
  "downloads (import_except e r s) = downloads s"
  "modsDir (import_except e r s) = modsDir s"
  "extractCalls (import_except e r s) = extractCalls s"
  by (simp_all add: import_except_def split: option.splits exc.splits)

lemma import_finally_fields [simp]:
  "downloads (snd (import_finally s)) = downloads s"
  "extractCalls (snd (import_finally s)) = extractCalls s"
  by (simp_all add: import_finally_def)

lemma pd_fields [simp]:
  "downloads (pd_setMaximum m s) = downloads s" "modsDir (pd_setMaximum m s) = modsDir s"
  "extractCalls (pd_setMaximum m s) = extractCalls s"
  "downloads (pd_setTitle t s) = downloads s" "modsDir (pd_setTitle t s) = modsDir s"
  "extractCalls (pd_setTitle t s) = extractCalls s"
  "downloads (pd_setContent c s) = downloads s" "modsDir (pd_setContent c s) = modsDir s"
  "extractCalls (pd_setContent c s) = extractCalls s"
  "downloads (pd_show s) = downloads s" "modsDir (pd_show s) = modsDir s"
  "extractCalls (pd_show s) = extractCalls s"
  "downloads (pd_hide s) = downloads s" "modsDir (pd_hide s) = modsDir s"
  "extractCalls (pd_hide s) = extractCalls s"
  by (simp_all add: pd_setMaximum_def pd_setTitle_def pd_setContent_def pd_show_def pd_hide_def)

lemma reloadMods_fields [simp]:
  "downloads (snd (reloadMods s)) = downloads s"
  "extractCalls (snd (reloadMods s)) = extractCalls s"
  by (simp_all add: reloadMods_def setLoadingScreen_def Let_def)

lemma downloads_extract_entries [simp]:
  "downloads (snd (extract_entries e fmt archive names s)) = downloads s"
  by (induction names arbitrary: s) (simp_all add: Let_def split: sum.splits)

lemma downloads_unpack_archive [simp]:
  "downloads (snd (unpack_archive e fmt archive s)) = downloads s"
  by (simp add: unpack_archive_def split: sum.splits)

lemma downloads_unpack_by_signature [simp]:
  "downloads (snd (unpack_by_signature e sg content s)) = downloads s"
  by (cases "sniff sg") (simp_all add: unpack_by_signature_def)

lemma downloads_import_body:
  "downloads (snd (import_body e zipUrl s)) = downloads s @ [zipUrl]"
proof (cases "urlretrieve e zipUrl")
  case (DownloadRefused x)
  then show ?thesis by (simp add: import_body_def Let_def)
next
  case (DownloadBroken x part)
  then show ?thesis by (simp add: import_body_def Let_def)
next
  case (Downloaded content)
  let ?s2 = "s\<lparr>downloads := downloads s @ [zipUrl],
               modsDir := write_file (modsDir s) archivePath content\<rparr>"
  obtain r s3 where u: "unpack_by_signature e (take 3 content) content ?s2 = (r, s3)"
    by (cases "unpack_by_signature e (take 3 content) content ?s2")
  from downloads_unpack_by_signature [of e "take 3 content" content ?s2] u
  have d3: "downloads s3 = downloads s @ [zipUrl]" by simp
  obtain r4 s4 where rl: "reloadMods s3 = (r4, s4)" by (cases "reloadMods s3")
  with reloadMods_fields(1) [of s3] d3 have d4: "downloads s4 = downloads s @ [zipUrl]" by simp
  show ?thesis
    using Downloaded u d3 rl d4
    by (cases r; cases r4) (simp_all add: import_body_def Let_def)
qed

lemma urlImport_three_fields:
  "splitData_of url = Some splitData \<Longrightarrow> length splitData = 3 \<Longrightarrow>
   urlImport e s url =
     import_finally
       (import_except e
          (fst (import_body e (''http://gamebanana.com/dl/'' @ splitData ! 2)
             (pd_show (pd_setContent (AStr []) (pd_setTitle ''Download mod''
                (pd_setMaximum (AInt 100) s))))))
          (snd (import_body e (''http://gamebanana.com/dl/'' @ splitData ! 2)
             (pd_show (pd_setContent (AStr []) (pd_setTitle ''Download mod''
                (pd_setMaximum (AInt 100) s)))))))"
  by (simp add: urlImport_def Let_def split_beta)

lemma urlImport_other_fields:
  "splitData_of url = Some splitData \<Longrightarrow> length splitData \<noteq> 3 \<Longrightarrow> urlImport e s url = (None, s)"
  by (simp add: urlImport_def)

lemma fst_import_finally: "fst (import_finally s) \<noteq> Some IndexError"
  by (simp add: import_finally_def)

text \<open>
  Claim C7. The URL is cut after its first colon, the slashes around the remainder are
  stripped and the remainder is split at its commas. With exactly three fields one
  download is attempted, of the fixed address followed by the third field; with any
  other number of fields \<open>urlImport\<close> returns without an exception and leaves the
  window as it was: nothing is downloaded and no dialog is touched.
\<close>

theorem urlImport_field_count:
  "(CHR '':'' \<notin> set scheme \<longrightarrow>
      splitData_of (scheme @ '':'' @ rest) = Some (py_split CHR '','' (py_strip CHR ''/'' rest))) \<and>
   (splitData_of url = Some splitData \<and> length splitData = 3 \<longrightarrow>
      downloads (snd (urlImport e s url)) =
        downloads s @ [''http://gamebanana.com/dl/'' @ splitData ! 2]) \<and>
   (splitData_of url = Some splitData \<and> length splitData \<noteq> 3 \<longrightarrow> urlImport e s url = (None, s))"
proof (intro conjI impI)
  assume "CHR '':'' \<notin> set scheme"
  then show "splitData_of (scheme @ '':'' @ rest) = Some (py_split CHR '','' (py_strip CHR ''/'' rest))"
    by (rule splitData_of_colon)
next
  assume "splitData_of url = Some splitData \<and> length splitData = 3"
  then show "downloads (snd (urlImport e s url)) =
        downloads s @ [''http://gamebanana.com/dl/'' @ splitData ! 2]"
    by (simp add: urlImport_three_fields downloads_import_body)
next
  assume "splitData_of url = Some splitData \<and> length splitData \<noteq> 3"
  then show "urlImport e s url = (None, s)"
    by (simp add: urlImport_other_fields)
qed

lemma example_urls:
  "splitData_of ''scheme://tag,123,456'' = Some [''tag'', ''123'', ''456'']"
  "splitData_of ''scheme://onlytwo,fields'' = Some [''onlytwo'', ''fields'']"
  by (simp_all add: splitData_of_def py_split1_def py_strip_def)

theorem urlImport_field_count_witness:
  "splitData_of (''scheme'' @ '':'' @ ''//tag,123,456'') = Some [''tag'', ''123'', ''456''] \<and>
   downloads (snd (urlImport example_env example_window ''scheme://tag,123,456'')) =
     [''http://gamebanana.com/dl/456''] \<and>
   urlImport example_env example_window ''scheme://onlytwo,fields'' = (None, example_window)"
proof -
  have a: "CHR '':'' \<notin> set ''scheme''" by simp
  have p: "py_split CHR '','' (py_strip CHR ''/'' ''//tag,123,456'') = [''tag'', ''123'', ''456'']"
    by (simp add: py_strip_def)
  from urlImport_field_count [of "''scheme''" "''//tag,123,456''"] a
  have 1: "splitData_of (''scheme'' @ '':'' @ ''//tag,123,456'') = Some [''tag'', ''123'', ''456'']"
    unfolding p by blast
  have d: "downloads example_window = []" by (simp add: example_window_def)
  from urlImport_field_count [of _ _ "''scheme://tag,123,456''" "[''tag'', ''123'', ''456'']"
      example_env example_window] example_urls(1)
  have 2: "downloads (snd (urlImport example_env example_window ''scheme://tag,123,456'')) =
     [''http://gamebanana.com/dl/456'']"
    by (simp add: d)
  from urlImport_field_count [of _ _ "''scheme://onlytwo,fields''" "[''onlytwo'', ''fields'']"
      example_env example_window] example_urls(2)
  have 3: "urlImport example_env example_window ''scheme://onlytwo,fields'' = (None, example_window)"
    by simp
  from 1 2 3 show ?thesis by blast
qed

text \<open>
  Claim C10. A string without a colon makes \<open>url.split(":", 1)[1]\<close> raise
  IndexError before the fields are counted, and the exception leaves \<open>urlImport\<close>;
  a string with a colon never does.
\<close>

theorem urlImport_without_colon_raises:
  "(CHR '':'' \<notin> set url \<longrightarrow> urlImport e s url = (Some IndexError, s)) \<and>
   (CHR '':'' \<in> set url \<longrightarrow> fst (urlImport e s url) \<noteq> Some IndexError)"
proof (intro conjI impI)
  assume "CHR '':'' \<notin> set url"
  then have "splitData_of url = None" by (simp add: splitData_of_None)
  then show "urlImport e s url = (Some IndexError, s)" by (simp add: urlImport_def)
next
  assume "CHR '':'' \<in> set url"
  then obtain splitData where f: "splitData_of url = Some splitData"
    using splitData_of_None [of url] by (cases "splitData_of url") auto
  show "fst (urlImport e s url) \<noteq> Some IndexError"
  proof (cases "length splitData = 3")
    case True
    show ?thesis unfolding urlImport_three_fields [OF f True] by (rule fst_import_finally)
  next
    case False
    with f show ?thesis by (simp add: urlImport_other_fields)
  qed
qed

theorem urlImport_without_colon_raises_witness:
  "urlImport example_env example_window ''tag,123,456'' = (Some IndexError, example_window) \<and>
   fst (urlImport example_env example_window ''scheme://onlytwo,fields'') \<noteq> Some IndexError"
proof -
  have a: "CHR '':'' \<notin> set ''tag,123,456''" by simp
  have b: "CHR '':'' \<in> set ''scheme://onlytwo,fields''" by simp
  from urlImport_without_colon_raises [of "''tag,123,456''" example_env example_window] a
  have 1: "urlImport example_env example_window ''tag,123,456'' = (Some IndexError, example_window)"
    by blast
  from urlImport_without_colon_raises [of "''scheme://onlytwo,fields''" example_env example_window] b
  have 2: "fst (urlImport example_env example_window ''scheme://onlytwo,fields'') \<noteq> Some IndexError"
    by blast
  from 1 2 show ?thesis by blast
qed

section \<open>Properties of the archive import\<close>

lemma extract_entries_calls:
  "\<exists>new. extractCalls (snd (extract_entries e fmt archive names s)) = extractCalls s @ new \<and>
         (\<forall>n\<in>set new. n \<in> set names \<and> endswith n (''.'' @ MOD_FILE_FORMAT e))"
proof (induction names arbitrary: s)
  case Nil
  then show ?case by simp
next
  case (Cons entry entries)
  show ?case
  proof (cases "endswith entry (''.'' @ MOD_FILE_FORMAT e)")
    case False
    with Cons [of s] show ?thesis by auto
  next
    case True
    let ?s2 = "(pd_setContent (AStr (''Extract: '' @ sq @ entry @ sq)) s)
                 \<lparr>extractCalls := extractCalls s @ [entry]\<rparr>"
    show ?thesis
    proof (cases "archive_extract e fmt archive entry")
      case (Inl x)
      with True have "extractCalls (snd (extract_entries e fmt archive (entry # entries) s)) =
          extractCalls s @ [entry]" by (simp add: Let_def)
      with True show ?thesis by auto
    next
      case (Inr content)
      let ?s3 = "?s2\<lparr>modsDir := write_file (modsDir ?s2) entry content\<rparr>"
      from Cons [of ?s3] obtain new where
        n: "extractCalls (snd (extract_entries e fmt archive entries ?s3)) = extractCalls ?s3 @ new"
           "\<forall>n\<in>set new. n \<in> set entries \<and> endswith n (''.'' @ MOD_FILE_FORMAT e)" by blast
      from True Inr have "extract_entries e fmt archive (entry # entries) s =
          extract_entries e fmt archive entries ?s3" by (simp add: Let_def)
      with n have "extractCalls (snd (extract_entries e fmt archive (entry # entries) s)) =
          extractCalls s @ (entry # new)" by simp
      moreover from n True have "\<forall>n\<in>set (entry # new). n \<in> set (entry # entries) \<and>
          endswith n (''.'' @ MOD_FILE_FORMAT e)" by auto
      ultimately show ?thesis by blast
    qed
  qed
qed

lemma extract_entries_frame:
  "\<not> endswith nm (''.'' @ MOD_FILE_FORMAT e) \<Longrightarrow>
   map_of (modsDir (snd (extract_entries e fmt archive names s))) nm = map_of (modsDir s) nm"
proof (induction names arbitrary: s)
  case Nil
  then show ?case by simp
next
  case (Cons entry entries)
  show ?case
  proof (cases "endswith entry (''.'' @ MOD_FILE_FORMAT e)")
    case False
    with Cons show ?thesis by simp
  next
    case True
    with Cons.prems have ne: "nm \<noteq> entry" by auto
    show ?thesis
    proof (cases "archive_extract e fmt archive entry")
      case (Inl x)
      with True show ?thesis by (simp add: Let_def)
    next
      case (Inr content)
      with True ne Cons.IH [OF Cons.prems] show ?thesis
        by (simp add: Let_def map_of_write_file)
    qed
  qed
qed

lemma extract_entries_keeps:
  "map_of (modsDir s) nm \<noteq> None \<Longrightarrow>
   map_of (modsDir (snd (extract_entries e fmt archive names s))) nm \<noteq> None"
proof (induction names arbitrary: s)
  case Nil
  then show ?case by simp
next
  case (Cons entry entries)
  show ?case
  proof (cases "endswith entry (''.'' @ MOD_FILE_FORMAT e)")
    case False
    with Cons show ?thesis by simp
  next
    case True
    show ?thesis
    proof (cases "archive_extract e fmt archive entry")
      case (Inl x)
      with True Cons.prems show ?thesis by (simp add: Let_def)
    next
      case (Inr content)
      let ?s3 = "(pd_setContent (AStr (''Extract: '' @ sq @ entry @ sq)) s)
                 \<lparr>extractCalls := extractCalls s @ [entry],
                  modsDir := write_file (modsDir s) entry content\<rparr>"
      from Cons.prems have "map_of (modsDir ?s3) nm \<noteq> None" by (simp add: map_of_write_file)
      from Cons.IH [OF this] True Inr show ?thesis by (simp add: Let_def)
    qed
  qed
qed

lemma unpack_archive_calls:
  "\<exists>new. extractCalls (snd (unpack_archive e fmt content s)) = extractCalls s @ new \<and>
         (\<forall>n\<in>set new. endswith n (''.'' @ MOD_FILE_FORMAT e))"
proof (cases "archive_namelist e fmt content")
  case (Inl x)
  then show ?thesis by (simp add: unpack_archive_def)
next
  case (Inr names)
  with extract_entries_calls [of e fmt content names s] show ?thesis
    by (auto simp: unpack_archive_def)
qed

lemma unpack_archive_frame:
  "\<not> endswith nm (''.'' @ MOD_FILE_FORMAT e) \<Longrightarrow>
   map_of (modsDir (snd (unpack_archive e fmt content s))) nm = map_of (modsDir s) nm"
  using extract_entries_frame [of nm e fmt content _ s]
  by (cases "archive_namelist e fmt content") (simp_all add: unpack_archive_def)

lemma unpack_archive_keeps:
  "map_of (modsDir s) nm \<noteq> None \<Longrightarrow>
   map_of (modsDir (snd (unpack_archive e fmt content s))) nm \<noteq> None"
  using extract_entries_keeps [of s nm e fmt content]
  by (cases "archive_namelist e fmt content") (simp_all add: unpack_archive_def)

lemma unpack_by_signature_cases:
  "unpack_by_signature e sg content s = (None, s) \<or>
   (\<exists>fmt. unpack_by_signature e sg content s = unpack_archive e fmt content s)"
  by (cases "sniff sg") (auto simp: unpack_by_signature_def)

lemma unpack_by_signature_calls:
  "\<exists>new. extractCalls (snd (unpack_by_signature e sg content s)) = extractCalls s @ new \<and>
         (\<forall>n\<in>set new. endswith n (''.'' @ MOD_FILE_FORMAT e))"
proof -
  from unpack_by_signature_cases [of e sg content s]
  consider "unpack_by_signature e sg content s = (None, s)"
    | fmt where "unpack_by_signature e sg content s = unpack_archive e fmt content s"
    by blast
  then show ?thesis
  proof cases
    case 1
    then show ?thesis by simp
  next
    case 2
    then show ?thesis using unpack_archive_calls [of e fmt content s] by simp
  qed
qed

lemma unpack_by_signature_frame:
  "\<not> endswith nm (''.'' @ MOD_FILE_FORMAT e) \<Longrightarrow>
   map_of (modsDir (snd (unpack_by_signature e sg content s))) nm = map_of (modsDir s) nm"
  using unpack_by_signature_cases [of e sg content s] unpack_archive_frame [of nm e _ content s]
  by auto

lemma unpack_by_signature_keeps:
  "map_of (modsDir s) nm \<noteq> None \<Longrightarrow>
   map_of (modsDir (snd (unpack_by_signature e sg content s))) nm \<noteq> None"
  using unpack_by_signature_cases [of e sg content s] unpack_archive_keeps [of s nm e _ content]
  by auto

text \<open>The body of the \<open>try\<close> after a completed download, in terms of its two stages.\<close>

lemma import_body_Downloaded:
  "urlretrieve e zipUrl = Downloaded content \<Longrightarrow>
   unpack_by_signature e (take 3 content) content
     (s\<lparr>downloads := downloads s @ [zipUrl],
        modsDir := write_file (modsDir s) archivePath content\<rparr>) = (r, s3) \<Longrightarrow>
   import_body e zipUrl s =
     (case r of Some x \<Rightarrow> (Some x, s3)
      | None \<Rightarrow> (case reloadMods s3 of (Some x, s4) \<Rightarrow> (Some x, s4)
                 | (None, s4) \<Rightarrow> (None, pd_hide s4)))"
  by (cases r) (simp_all add: import_body_def Let_def)

lemma import_body_effects:
  "(\<exists>new. extractCalls (snd (import_body e zipUrl s)) = extractCalls s @ new \<and>
          (\<forall>n\<in>set new. endswith n (''.'' @ MOD_FILE_FORMAT e))) \<and>
   (\<forall>nm. nm \<noteq> archivePath \<and> \<not> endswith nm (''.'' @ MOD_FILE_FORMAT e) \<longrightarrow>
      map_of (modsDir (snd (import_body e zipUrl s))) nm = map_of (modsDir s) nm) \<and>
   ((\<forall>x. urlretrieve e zipUrl \<noteq> DownloadRefused x) \<or> map_of (modsDir s) archivePath \<noteq> None \<longrightarrow>
      map_of (modsDir (snd (import_body e zipUrl s))) archivePath \<noteq> None)"
proof (cases "urlretrieve e zipUrl")
  case (DownloadRefused x)
  then show ?thesis by (simp add: import_body_def Let_def)
next
  case (DownloadBroken x part)
  then show ?thesis by (simp add: import_body_def Let_def map_of_write_file)
next
  case (Downloaded content)
  let ?s2 = "s\<lparr>downloads := downloads s @ [zipUrl],
               modsDir := write_file (modsDir s) archivePath content\<rparr>"
  obtain r s3 where u: "unpack_by_signature e (take 3 content) content ?s2 = (r, s3)"
    by (cases "unpack_by_signature e (take 3 content) content ?s2")
  obtain r4 s4 where rl: "reloadMods s3 = (r4, s4)" by (cases "reloadMods s3")
  from rl have s4: "modsDir s4 = modsDir s3" "extractCalls s4 = extractCalls s3"
    using modsDir_reloadMods [of s3] reloadMods_fields(2) [of s3] by simp_all
  have res: "modsDir (snd (import_body e zipUrl s)) = modsDir s3"
            "extractCalls (snd (import_body e zipUrl s)) = extractCalls s3"
    unfolding import_body_Downloaded [OF Downloaded u] using rl s4
    by (cases r; cases r4; simp)+
  from unpack_by_signature_calls [of e "take 3 content" content ?s2] u
  have a: "\<exists>new. extractCalls s3 = extractCalls s @ new \<and>
          (\<forall>n\<in>set new. endswith n (''.'' @ MOD_FILE_FORMAT e))" by simp
  have b: "\<forall>nm. nm \<noteq> archivePath \<and> \<not> endswith nm (''.'' @ MOD_FILE_FORMAT e) \<longrightarrow>
      map_of (modsDir s3) nm = map_of (modsDir s) nm"
    using unpack_by_signature_frame [of _ e "take 3 content" content ?s2] u
    by (simp add: map_of_write_file)
  have c: "map_of (modsDir s3) archivePath \<noteq> None"
    using unpack_by_signature_keeps [of ?s2 archivePath e "take 3 content" content] u
    by (simp add: map_of_write_file)
  from a b c show ?thesis unfolding res by blast
qed


lemma map_of_import_finally:
  "map_of (modsDir (snd (import_finally s))) nm =
     (if nm = archivePath then None else map_of (modsDir s) nm)"
  by (simp add: import_finally_def map_of_remove_file)

lemma urlImport_cases:
  "urlImport e s url = (Some IndexError, s) \<or> urlImport e s url = (None, s) \<or>
   (\<exists>zipUrl. urlImport e s url =
      import_finally
       (import_except e
          (fst (import_body e zipUrl
             (pd_show (pd_setContent (AStr []) (pd_setTitle ''Download mod''
                (pd_setMaximum (AInt 100) s))))))
          (snd (import_body e zipUrl
             (pd_show (pd_setContent (AStr []) (pd_setTitle ''Download mod''
                (pd_setMaximum (AInt 100) s))))))))"
proof (cases "splitData_of url")
  case None
  then show ?thesis by (simp add: urlImport_def)
next
  case (Some splitData)
  show ?thesis
  proof (cases "length splitData = 3")
    case True
    from urlImport_three_fields [OF Some True] show ?thesis by blast
  next
    case False
    from urlImport_other_fields [OF Some False] show ?thesis by blast
  qed
qed

text \<open>
  Claim C5. Whatever the URL, the download and the archive are, the entries that
  \<open>urlImport\<close> hands to \<open>extract\<close> all end with a dot and the mod extension, and
  a file of the mods directory whose name does not end so (the scratch file apart) is
  neither written nor changed.
\<close>

theorem urlImport_extracts_only_mod_files:
  "(\<exists>new. extractCalls (snd (urlImport e s url)) = extractCalls s @ new \<and>
          (\<forall>n\<in>set new. endswith n (''.'' @ MOD_FILE_FORMAT e))) \<and>
   (\<forall>nm. nm \<noteq> archivePath \<and> \<not> endswith nm (''.'' @ MOD_FILE_FORMAT e) \<longrightarrow>
      map_of (modsDir (snd (urlImport e s url))) nm = map_of (modsDir s) nm)"
proof -
  let ?s1 = "pd_show (pd_setContent (AStr []) (pd_setTitle ''Download mod''
                (pd_setMaximum (AInt 100) s)))"
  from urlImport_cases [of e s url]
  consider "snd (urlImport e s url) = s"
    | zipUrl where "urlImport e s url =
        import_finally (import_except e (fst (import_body e zipUrl ?s1))
          (snd (import_body e zipUrl ?s1)))"
    by fastforce
  then show ?thesis
  proof cases
    case 1
    then show ?thesis by simp
  next
    case 2
    note b = import_body_effects [of e zipUrl ?s1]
    from b have a: "\<exists>new. extractCalls (snd (urlImport e s url)) = extractCalls s @ new \<and>
          (\<forall>n\<in>set new. endswith n (''.'' @ MOD_FILE_FORMAT e))"
      unfolding 2 by simp
    from b have c: "\<forall>nm. nm \<noteq> archivePath \<and> \<not> endswith nm (''.'' @ MOD_FILE_FORMAT e) \<longrightarrow>
      map_of (modsDir (snd (urlImport e s url))) nm = map_of (modsDir s) nm"
      unfolding 2 by (simp add: map_of_import_finally)
    from a c show ?thesis by blast
  qed
qed

lemma example_zip_import:
  "extractCalls (snd (urlImport example_zip_env example_window ''scheme://tag,123,456'')) =
     [''skin.bmod''] \<and>
   modsDir (snd (urlImport example_zip_env example_window ''scheme://tag,123,456'')) =
     [(''skin.bmod'', ''mod:skin.bmod''), (''a.bmod'', ''old'')] \<and>
   fst (urlImport example_zip_env example_window ''scheme://tag,123,456'') = None"
proof -
  let ?s1 = "pd_show (pd_setContent (AStr []) (pd_setTitle ''Download mod''
                (pd_setMaximum (AInt 100) example_window)))"
  let ?s2 = "?s1\<lparr>downloads := downloads ?s1 @ [''http://gamebanana.com/dl/456''],
               modsDir := write_file (modsDir ?s1) archivePath ''PK-archive''\<rparr>"
  have d: "urlretrieve example_zip_env ''http://gamebanana.com/dl/456'' = Downloaded ''PK-archive''"
    by (simp add: example_zip_env_def)
  obtain r s3 where u: "unpack_by_signature example_zip_env (take 3 ''PK-archive'') ''PK-archive'' ?s2 = (r, s3)"
    by (cases "unpack_by_signature example_zip_env (take 3 ''PK-archive'') ''PK-archive'' ?s2")
  have sn: "sniff (take 3 ''PK-archive'') = Zip" by (simp add: sniff_def startswith_def)
  have nl: "archive_namelist example_zip_env Zip ''PK-archive'' = Inr [''readme.txt'', ''skin.bmod'']"
       "archive_extract example_zip_env Zip ''PK-archive'' ''skin.bmod'' = Inr ''mod:skin.bmod''"
       "MOD_FILE_FORMAT example_zip_env = ''bmod''"
    by (simp_all add: example_zip_env_def example_env_def)
  have en: "\<not> endswith ''readme.txt'' ''.bmod''" "endswith ''skin.bmod'' ''.bmod''"
    by (simp_all add: endswith_def)
  have u2: "unpack_by_signature example_zip_env (take 3 ''PK-archive'') ''PK-archive'' ?s2 =
      (None, (pd_setContent (AStr (''Extract: '' @ sq @ ''skin.bmod'' @ sq)) ?s2)
         \<lparr>extractCalls := extractCalls ?s2 @ [''skin.bmod''],
          modsDir := write_file (modsDir ?s2) ''skin.bmod'' ''mod:skin.bmod''\<rparr>)"
    unfolding unpack_by_signature_def sn unpack_archive_def nl
    using en by (simp add: nl Let_def)
  from u u2 have r: "r = None" and s3: "extractCalls s3 = [''skin.bmod'']"
     "modsDir s3 = [(''skin.bmod'', ''mod:skin.bmod''), (archivePath, ''PK-archive''), (''a.bmod'', ''old'')]"
     "controller s3"
    by (auto simp: example_window_def write_file_def archivePath_def pd_setContent_def pd_show_def
        pd_setTitle_def pd_setMaximum_def)
  obtain s4 where rl: "reloadMods s3 = (None, s4)" and s4: "modsDir s4 = modsDir s3"
      "extractCalls s4 = extractCalls s3"
    using s3(3) by (simp add: reloadMods_def setLoadingScreen_def Let_def)
  have ib: "import_body example_zip_env ''http://gamebanana.com/dl/456'' ?s1 = (None, pd_hide s4)"
    unfolding import_body_Downloaded [OF d u] r using rl by simp
  have l: "length [''tag'', ''123'', ''456''] = 3" by simp
  have "urlImport example_zip_env example_window ''scheme://tag,123,456'' =
      import_finally (pd_hide s4)"
    using urlImport_three_fields [OF example_urls(1) l, of example_zip_env example_window] ib
    by (simp add: import_except_def)
  then show ?thesis
    using s3 s4
    by (simp add: import_finally_def archivePath_def remove_file_def)
qed

theorem urlImport_extracts_only_mod_files_witness:
  "extractCalls (snd (urlImport example_zip_env example_window ''scheme://tag,123,456'')) =
     [''skin.bmod''] \<and>
   map_of (modsDir (snd (urlImport example_zip_env example_window ''scheme://tag,123,456'')))
     ''readme.txt'' = None \<and>
   map_of (modsDir (snd (urlImport example_zip_env example_window ''scheme://tag,123,456'')))
     ''skin.bmod'' = Some ''mod:skin.bmod''"
proof -
  note t = urlImport_extracts_only_mod_files [of example_zip_env example_window
      "''scheme://tag,123,456''"]
  have n: "''readme.txt'' \<noteq> archivePath \<and>
           \<not> endswith ''readme.txt'' (''.'' @ MOD_FILE_FORMAT example_zip_env)"
    by (simp add: archivePath_def endswith_def example_zip_env_def example_env_def)
  have d: "map_of (modsDir example_window) ''readme.txt'' = None"
    by (simp add: example_window_def)
  from t n have "map_of (modsDir (snd (urlImport example_zip_env example_window
      ''scheme://tag,123,456''))) ''readme.txt'' = map_of (modsDir example_window) ''readme.txt''"
    by blast
  with d example_zip_import show ?thesis by simp
qed






lemma urlImport_download_refused:
  assumes "splitData_of url = Some splitData" "length splitData = 3"
    and "urlretrieve e (''http://gamebanana.com/dl/'' @ splitData ! 2) = DownloadRefused x"
    and "map_of (modsDir s) archivePath = None"
  shows "fst (urlImport e s url) = Some FileNotFoundError"
proof -
  let ?s1 = "pd_show (pd_setContent (AStr []) (pd_setTitle ''Download mod''
                (pd_setMaximum (AInt 100) s)))"
  let ?z = "''http://gamebanana.com/dl/'' @ splitData ! 2"
  note u = urlImport_three_fields [OF assms(1,2), of e s]
  have "modsDir (snd (import_body e ?z ?s1)) = modsDir s"
    using assms(3) by (simp add: import_body_def Let_def)
  then have "map_of (modsDir (import_except e (fst (import_body e ?z ?s1))
      (snd (import_body e ?z ?s1)))) archivePath = None" using assms(4) by simp
  then show ?thesis unfolding u by (simp add: import_finally_def)
qed

text \<open>
  Claim C6 against the code. When the download raises before the scratch file is
  created (no connection, an HTTP error) and no scratch file is left from before, the
  \<open>except\<close> clause shows the error and the \<open>os.remove\<close> of the \<open>finally\<close> clause then
  raises FileNotFoundError, which leaves \<open>urlImport\<close>. Whenever the scratch file exists
  at that point it is removed and nothing is raised (\<open>urlImport_scratch_removed\<close>).
\<close>

theorem urlImport_refused_download_raises:
  "splitData_of ''scheme://tag,123,456'' = Some [''tag'', ''123'', ''456''] \<and>
   urlretrieve example_env ''http://gamebanana.com/dl/456'' =
     DownloadRefused (LibraryError ''URLError'') \<and>
   map_of (modsDir example_window) archivePath = None \<and>
   fst (urlImport example_env example_window ''scheme://tag,123,456'') = Some FileNotFoundError"
proof -
  have d: "urlretrieve example_env (''http://gamebanana.com/dl/'' @ [''tag'', ''123'', ''456''] ! 2) =
     DownloadRefused (LibraryError ''URLError'')"
    by (simp add: example_env_def)
  have m: "map_of (modsDir example_window) archivePath = None"
    by (simp add: example_window_def archivePath_def)
  have l: "length [''tag'', ''123'', ''456''] = 3" by simp
  from urlImport_download_refused [OF example_urls(1) l d m] d m example_urls(1)
  show ?thesis by simp
qed













section \<open>Properties of the notification handler\<close>

lemma handleNotification_soft:
  "notificationType n \<in> set soft_errors \<Longrightarrow>
   handleNotification e n s = (None, s\<lparr>errors := errors s @ [n]\<rparr>)"
  by (auto simp: handleNotification_def soft_errors_def Let_def)

lemma handleNotification_conflict_not_found:
  "handleNotification e \<lparr>notificationType = ModConflictNotFound, args = [modHash]\<rparr> s =
     (None, (pd_setValue 0 s)\<lparr>sent := sent s @ [CmdInstallMod modHash]\<rparr>)"
  by (simp add: handleNotification_def unpack1_def Let_def pd_setValue_def)

lemma error_entries_length:
  "error_entries e ns acc = Some lines \<Longrightarrow> length lines = length acc + length ns"
  by (induction ns arbitrary: acc) (auto split: option.splits)

lemma join_lines_concat:
  "join_lines ls acc = acc @ concat (map (\<lambda>l. l @ [CHR 0x0A]) ls)"
  by (induction ls arbitrary: acc) simp_all

lemma newlines_count:
  "\<forall>l\<in>set ls. CHR 0x0A \<notin> set l \<Longrightarrow>
   length (filter (\<lambda>c. c = CHR 0x0A) (concat (map (\<lambda>l. l @ [CHR 0x0A]) ls))) = length ls"
  by (induction ls) (auto simp: filter_empty_conv)

lemma showError_result:
  "errors (showError t c s) = errors s"
  "bd_shown (buttonsDialog (showError t c s))"
  "bd_title (buttonsDialog (showError t c s)) = t"
  "bd_content (buttonsDialog (showError t c s)) = c"
  by (simp_all add: showError_def Let_def)

lemma showErrorNotifications_flush:
  assumes "errors s \<noteq> []" "error_entries e (errors s) [] = Some lines"
  shows "showErrorNotifications e s =
           (None, showError ''Errors:'' (concat (map (\<lambda>l. l @ [CHR 0x0A]) lines))
                    (s\<lparr>errors := []\<rparr>))"
proof -
  from error_entries_length [OF assms(2)] assms(1) have "lines \<noteq> []" by auto
  with assms show ?thesis
    by (simp add: showErrorNotifications_def Let_def join_lines_concat)
qed

lemma showErrorNotifications_empty:
  "errors s = [] \<Longrightarrow> showErrorNotifications e s = (None, s)"
  by (simp add: showErrorNotifications_def)

lemma finished_reaches_report:
  "mods (modsWidget s) modHash = Some modClass \<Longrightarrow> selectedModButton (modsWidget s) \<noteq> None \<Longrightarrow>
   finished e flag modHash s =
     showErrorNotifications e
       (pd_hide (s\<lparr>modsWidget := (modsWidget s)
          \<lparr>mods := (mods (modsWidget s))(modHash \<mapsto> modClass\<lparr>installed := flag\<rparr>)\<rparr>\<rparr>))"
  by (auto simp: finished_def Let_def)

lemma reaches_report_flushes:
  "controller s \<Longrightarrow> reaches_report s d \<Longrightarrow>
   \<exists>s'. controllerHandler e (Some d) s = showErrorNotifications e s' \<and> errors s' = errors s \<and>
        buttonsDialog s' = buttonsDialog s"
proof (cases d)
  case (EnvNotification n)
  assume c: "controller s" and cp: "reaches_report s d"
  from cp EnvNotification obtain modHash rest modClass where
    a: "args n = modHash # rest" "mods (modsWidget s) modHash = Some modClass"
       "selectedModButton (modsWidget s) \<noteq> None"
    and t: "notificationType n = InstallingModFinished \<or> notificationType n = UninstallingModFinished"
    by (auto simp: reaches_report_def split: list.splits)
  let ?s' = "\<lambda>flag. pd_hide (s\<lparr>modsWidget := (modsWidget s)
          \<lparr>mods := (mods (modsWidget s))(modHash \<mapsto> modClass\<lparr>installed := flag\<rparr>)\<rparr>\<rparr>)"
  have f: "errors (?s' flag) = errors s" "buttonsDialog (?s' flag) = buttonsDialog s" for flag
    by (simp_all add: pd_hide_def)
  from t show ?thesis
  proof
    assume "notificationType n = InstallingModFinished"
    with c a EnvNotification
    have "controllerHandler e (Some d) s = showErrorNotifications e (?s' True)"
      by (simp add: controllerHandler_def handleNotification_def Let_def arg_at_def
          finished_reaches_report)
    with f [of True] show ?thesis by blast
  next
    assume "notificationType n = UninstallingModFinished"
    with c a EnvNotification
    have "controllerHandler e (Some d) s = showErrorNotifications e (?s' False)"
      by (simp add: controllerHandler_def handleNotification_def Let_def arg_at_def
          finished_reaches_report)
    with f [of False] show ?thesis by blast
  qed
next
  case (EnvGetModsData ds)
  assume c: "controller s"
  let ?s' = "setModsScreen (s\<lparr>modsWidget :=
      foldl (\<lambda>w d. addMod e (addMod_kwargs d) w) (modsWidget s) ds\<rparr>)"
  from c EnvGetModsData have "controllerHandler e (Some d) s = showErrorNotifications e ?s'"
    by (simp add: controllerHandler_def)
  moreover have "errors ?s' = errors s" "buttonsDialog ?s' = buttonsDialog s"
    by (simp_all add: setModsScreen_def)
  ultimately show ?thesis by blast
qed (simp_all add: reaches_report_def)

text \<open>
  Claim C8. When the handler receives \<open>ModConflictNotFound\<close> with the hash as its one
  argument, it sends exactly one command, \<open>installMod\<close> of that hash, and shows no
  dialog: the accept and the buttons dialog stay as they are and the progress dialog is
  neither shown nor hidden (its value is reset).
\<close>

theorem conflict_not_found_installs_once:
  "controller s \<Longrightarrow>
   fst (controllerHandler e
     (Some (EnvNotification \<lparr>notificationType = ModConflictNotFound, args = [modHash]\<rparr>)) s) = None \<and>
   sent (snd (controllerHandler e
     (Some (EnvNotification \<lparr>notificationType = ModConflictNotFound, args = [modHash]\<rparr>)) s)) =
     sent s @ [CmdInstallMod modHash] \<and>
   acceptDialog (snd (controllerHandler e
     (Some (EnvNotification \<lparr>notificationType = ModConflictNotFound, args = [modHash]\<rparr>)) s)) =
     acceptDialog s \<and>
   buttonsDialog (snd (controllerHandler e
     (Some (EnvNotification \<lparr>notificationType = ModConflictNotFound, args = [modHash]\<rparr>)) s)) =
     buttonsDialog s \<and>
   pd_shown (progressDialog (snd (controllerHandler e
     (Some (EnvNotification \<lparr>notificationType = ModConflictNotFound, args = [modHash]\<rparr>)) s))) =
     pd_shown (progressDialog s)"
  by (simp add: controllerHandler_def handleNotification_conflict_not_found pd_setValue_def)

theorem conflict_not_found_installs_once_witness:
  "sent (snd (controllerHandler example_env
     (Some (EnvNotification \<lparr>notificationType = ModConflictNotFound, args = [AStr ''h1'']\<rparr>))
     example_mods_window)) = [CmdInstallMod (AStr ''h1'')] \<and>
   ad_shown (acceptDialog (snd (controllerHandler example_env
     (Some (EnvNotification \<lparr>notificationType = ModConflictNotFound, args = [AStr ''h1'']\<rparr>))
     example_mods_window))) = False \<and>
   bd_shown (buttonsDialog (snd (controllerHandler example_env
     (Some (EnvNotification \<lparr>notificationType = ModConflictNotFound, args = [AStr ''h1'']\<rparr>))
     example_mods_window))) = False \<and>
   pd_shown (progressDialog (snd (controllerHandler example_env
     (Some (EnvNotification \<lparr>notificationType = ModConflictNotFound, args = [AStr ''h1'']\<rparr>))
     example_mods_window))) = False"
proof -
  have c: "controller example_mods_window" "sent example_mods_window = []"
    "ad_shown (acceptDialog example_mods_window) = False"
    "bd_shown (buttonsDialog example_mods_window) = False"
    "pd_shown (progressDialog example_mods_window) = False"
    by (simp_all add: example_mods_window_def example_window_def)
  from conflict_not_found_installs_once [OF c(1), of example_env "AStr ''h1''"] c
  show ?thesis by simp
qed

lemma ticks_append: "ticks e (ds @ [d]) s = snd (controllerHandler e (Some d) (ticks e ds s))"
  by (induction ds arbitrary: s) simp_all

lemma ticks_soft_errors:
  "controller s \<Longrightarrow> \<forall>n\<in>set ns. notificationType n \<in> set soft_errors \<Longrightarrow>
   ticks e (map EnvNotification ns) s = s\<lparr>errors := errors s @ ns\<rparr>"
proof (induction ns arbitrary: s)
  case Nil
  then show ?case by simp
next
  case (Cons n ns)
  from Cons.prems have h: "controllerHandler e (Some (EnvNotification n)) s =
      (None, s\<lparr>errors := errors s @ [n]\<rparr>)"
    by (simp add: controllerHandler_def handleNotification_soft)
  from Cons.prems have "controller (s\<lparr>errors := errors s @ [n]\<rparr>)" by simp
  from Cons.IH [OF this] Cons.prems(2) h show ?case by simp
qed

text \<open>
  A notification of a soft-error kind is appended to the buffer and nothing else
  happens. When a delivery reaches the report, the buffer is emptied; when it held
  notifications whose messages can be formatted, the error dialog shows one entry per
  notification, each ended by a newline, so as many lines as notifications when no entry
  contains a newline itself; when it was empty no dialog is touched.
\<close>

lemma soft_errors_reported_when_reached:
  "controller s \<Longrightarrow>
   (notificationType n \<in> set soft_errors \<longrightarrow>
      controllerHandler e (Some (EnvNotification n)) s = (None, s\<lparr>errors := errors s @ [n]\<rparr>)) \<and>
   (reaches_report s d \<and> errors s = [] \<longrightarrow>
      fst (controllerHandler e (Some d) s) = None \<and>
      errors (snd (controllerHandler e (Some d) s)) = [] \<and>
      buttonsDialog (snd (controllerHandler e (Some d) s)) = buttonsDialog s) \<and>
   (reaches_report s d \<and> errors s \<noteq> [] \<and> error_entries e (errors s) [] = Some lines \<longrightarrow>
      fst (controllerHandler e (Some d) s) = None \<and>
      errors (snd (controllerHandler e (Some d) s)) = [] \<and>
      bd_shown (buttonsDialog (snd (controllerHandler e (Some d) s))) \<and>
      bd_title (buttonsDialog (snd (controllerHandler e (Some d) s))) = ''Errors:'' \<and>
      bd_content (buttonsDialog (snd (controllerHandler e (Some d) s))) =
        concat (map (\<lambda>l. l @ [CHR 0x0A]) lines) \<and>
      length lines = length (errors s) \<and>
      ((\<forall>l\<in>set lines. CHR 0x0A \<notin> set l) \<longrightarrow>
         length (filter (\<lambda>c. c = CHR 0x0A)
           (bd_content (buttonsDialog (snd (controllerHandler e (Some d) s))))) = length (errors s)))"
proof (intro conjI impI)
  assume "controller s" "notificationType n \<in> set soft_errors"
  then show "controllerHandler e (Some (EnvNotification n)) s = (None, s\<lparr>errors := errors s @ [n]\<rparr>)"
    by (simp add: controllerHandler_def handleNotification_soft)
next
  assume c: "controller s" and h: "reaches_report s d \<and> errors s = []"
  from reaches_report_flushes [OF c, of d e] h obtain s' where
    s': "controllerHandler e (Some d) s = showErrorNotifications e s'" "errors s' = errors s"
        "buttonsDialog s' = buttonsDialog s" by blast
  from s' h have r: "controllerHandler e (Some d) s = (None, s')"
    by (simp add: showErrorNotifications_empty)
  from r show "fst (controllerHandler e (Some d) s) = None" by simp
  from r s' h show "errors (snd (controllerHandler e (Some d) s)) = []" by simp
  from r s' show "buttonsDialog (snd (controllerHandler e (Some d) s)) = buttonsDialog s" by simp
next
  assume c: "controller s"
    and h: "reaches_report s d \<and> errors s \<noteq> [] \<and> error_entries e (errors s) [] = Some lines"
  from reaches_report_flushes [OF c, of d e] h obtain s' where
    s': "controllerHandler e (Some d) s = showErrorNotifications e s'" "errors s' = errors s"
    by blast
  from s' h have r: "controllerHandler e (Some d) s =
      (None, showError ''Errors:'' (concat (map (\<lambda>l. l @ [CHR 0x0A]) lines)) (s'\<lparr>errors := []\<rparr>))"
    using showErrorNotifications_flush [of s' e lines] by simp
  from r show "fst (controllerHandler e (Some d) s) = None" by simp
  from r show "errors (snd (controllerHandler e (Some d) s)) = []"
    by (simp add: showError_result)
  from r show "bd_shown (buttonsDialog (snd (controllerHandler e (Some d) s)))"
    by (simp add: showError_result)
  from r show "bd_title (buttonsDialog (snd (controllerHandler e (Some d) s))) = ''Errors:''"
    by (simp add: showError_result)
  from r show content: "bd_content (buttonsDialog (snd (controllerHandler e (Some d) s))) =
        concat (map (\<lambda>l. l @ [CHR 0x0A]) lines)"
    by (simp add: showError_result)
  from h error_entries_length [of e "errors s" "[]" lines]
  show len: "length lines = length (errors s)" by simp
  assume "\<forall>l\<in>set lines. CHR 0x0A \<notin> set l"
  from newlines_count [OF this] content len
  show "length (filter (\<lambda>c. c = CHR 0x0A)
           (bd_content (buttonsDialog (snd (controllerHandler e (Some d) s))))) = length (errors s)"
    by simp
qed

lemma example_entries:
  "error_entries example_env example_soft_errors [] =
     Some [''Mod '' @ sq @ ''skin.bmod'' @ sq @ '' is empty'',
           ''Not found game file '' @ sq @ ''UI.swf'' @ sq,
           ''<Notification>'']"
  by (simp add: example_soft_errors_def error_entry_def error_string_def fmt1_def py_str_def
      example_env_def sq_def)

lemma example_buffered:
  "ticks example_env (map EnvNotification example_soft_errors) example_mods_window =
     example_mods_window\<lparr>errors := example_soft_errors\<rparr>"
proof -
  have c: "controller example_mods_window" "errors example_mods_window = []"
    by (simp_all add: example_mods_window_def example_window_def)
  have t: "\<forall>n\<in>set example_soft_errors. notificationType n \<in> set soft_errors"
    by (simp add: example_soft_errors_def soft_errors_def)
  from ticks_soft_errors [OF c(1) t, of example_env] c(2) show ?thesis by simp
qed

text \<open>
  With the mod's button selected, three soft errors are buffered without a dialog, and
  \<open>InstallingModFinished\<close> then reports three lines and leaves the buffer empty.
\<close>

lemma soft_errors_reported_example:
  "errors (ticks example_env (map EnvNotification example_soft_errors) example_mods_window) =
     example_soft_errors \<and>
   bd_shown (buttonsDialog
     (ticks example_env (map EnvNotification example_soft_errors) example_mods_window)) = False \<and>
   errors (ticks example_env
     (map EnvNotification example_soft_errors @
      [EnvNotification \<lparr>notificationType = InstallingModFinished, args = [AStr ''h1'']\<rparr>])
     example_mods_window) = [] \<and>
   bd_content (buttonsDialog (ticks example_env
     (map EnvNotification example_soft_errors @
      [EnvNotification \<lparr>notificationType = InstallingModFinished, args = [AStr ''h1'']\<rparr>])
     example_mods_window)) =
     ''Mod '' @ sq @ ''skin.bmod'' @ sq @ '' is empty'' @ [CHR 0x0A] @
     ''Not found game file '' @ sq @ ''UI.swf'' @ sq @ [CHR 0x0A] @
     ''<Notification>'' @ [CHR 0x0A] \<and>
   length (filter (\<lambda>c. c = CHR 0x0A) (bd_content (buttonsDialog (ticks example_env
     (map EnvNotification example_soft_errors @
      [EnvNotification \<lparr>notificationType = InstallingModFinished, args = [AStr ''h1'']\<rparr>])
     example_mods_window)))) = 3"
proof -
  let ?s3 = "example_mods_window\<lparr>errors := example_soft_errors\<rparr>"
  let ?fin = "EnvNotification \<lparr>notificationType = InstallingModFinished, args = [AStr ''h1'']\<rparr>"
  let ?lines = "[''Mod '' @ sq @ ''skin.bmod'' @ sq @ '' is empty'',
           ''Not found game file '' @ sq @ ''UI.swf'' @ sq,
           ''<Notification>'']"
  have c: "controller ?s3" by (simp add: example_mods_window_def example_window_def)
  have h: "reaches_report ?s3 ?fin \<and> errors ?s3 \<noteq> [] \<and>
           error_entries example_env (errors ?s3) [] = Some ?lines"
    using example_entries
    by (simp add: reaches_report_def example_mods_window_def example_soft_errors_def)
  have nl: "\<forall>l\<in>set ?lines. CHR 0x0A \<notin> set l" by (simp add: sq_def)
  have len: "length (errors ?s3) = 3" by (simp add: example_soft_errors_def)
  from soft_errors_reported_when_reached [OF c, of _ example_env ?fin ?lines] h nl
  have r: "errors (snd (controllerHandler example_env (Some ?fin) ?s3)) = []"
    "bd_content (buttonsDialog (snd (controllerHandler example_env (Some ?fin) ?s3))) =
        concat (map (\<lambda>l. l @ [CHR 0x0A]) ?lines)"
    "length (filter (\<lambda>c. c = CHR 0x0A)
           (bd_content (buttonsDialog (snd (controllerHandler example_env (Some ?fin) ?s3))))) =
       length (errors ?s3)"
    by blast+
  have b: "bd_shown (buttonsDialog ?s3) = False"
    by (simp add: example_mods_window_def example_window_def)
  show ?thesis
    unfolding ticks_append example_buffered
    using r(1) r(2) r(3) len b by simp
qed


lemma finished_unknown_mod:
  "controller s \<Longrightarrow> mods (modsWidget s) modHash = None \<Longrightarrow>
   controllerHandler e
     (Some (EnvNotification \<lparr>notificationType = InstallingModFinished, args = [modHash]\<rparr>)) s =
     (Some KeyError, s)"
  by (simp add: controllerHandler_def handleNotification_def Let_def arg_at_def finished_def)

lemma finished_without_selection:
  assumes "controller s" "mods (modsWidget s) modHash = Some modClass"
    and "selectedModButton (modsWidget s) = None"
  shows "fst (controllerHandler e
           (Some (EnvNotification \<lparr>notificationType = InstallingModFinished, args = [modHash]\<rparr>)) s)
           = Some AttributeError"
    and "errors (snd (controllerHandler e
           (Some (EnvNotification \<lparr>notificationType = InstallingModFinished, args = [modHash]\<rparr>)) s))
           = errors s"
    and "buttonsDialog (snd (controllerHandler e
           (Some (EnvNotification \<lparr>notificationType = InstallingModFinished, args = [modHash]\<rparr>)) s))
           = buttonsDialog s"
  using assms
  by (simp_all add: controllerHandler_def handleNotification_def Let_def arg_at_def finished_def)

lemma report_lost_on_short_args:
  "errors s \<noteq> [] \<Longrightarrow> error_entries e (errors s) [] = None \<Longrightarrow>
   showErrorNotifications e s = (Some IndexError, s\<lparr>errors := []\<rparr>)"
  by (simp add: showErrorNotifications_def Let_def)

text \<open>
  Claim C9 against the code. The end of an install is one of the points at which the
  buffered errors are to be reported. With three soft errors buffered, the mod known and
  no mod button selected, the handler of \<open>InstallingModFinished\<close> raises
  AttributeError at \<open>selectedModButton.updateData()\<close>, before it comes to
  \<open>showErrorNotifications\<close>: the three notifications stay in the buffer and no dialog
  is shown. The same holds for a hash the widget does not know
  (\<open>finished_unknown_mod\<close>), and a buffered notification with too few arguments
  empties the buffer without any report (\<open>report_lost_on_short_args\<close>). Where the
  report is reached and the messages can be formatted, it is as the claim says
  (\<open>soft_errors_reported_when_reached\<close>).
\<close>

theorem finished_without_selection_keeps_errors:
  "controller example_unselected_window \<and>
   errors example_unselected_window = example_soft_errors \<and>
   length example_soft_errors = 3 \<and>
   fst (controllerHandler example_env
     (Some (EnvNotification \<lparr>notificationType = InstallingModFinished, args = [AStr ''h1'']\<rparr>))
     example_unselected_window) = Some AttributeError \<and>
   errors (snd (controllerHandler example_env
     (Some (EnvNotification \<lparr>notificationType = InstallingModFinished, args = [AStr ''h1'']\<rparr>))
     example_unselected_window)) = example_soft_errors \<and>
   bd_shown (buttonsDialog (snd (controllerHandler example_env
     (Some (EnvNotification \<lparr>notificationType = InstallingModFinished, args = [AStr ''h1'']\<rparr>))
     example_unselected_window))) = False"
proof -
  have c: "controller example_unselected_window"
    "mods (modsWidget example_unselected_window) (AStr ''h1'') =
       Some \<lparr>name = ''Skin'', installed = False\<rparr>"
    "selectedModButton (modsWidget example_unselected_window) = None"
    "errors example_unselected_window = example_soft_errors"
    "bd_shown (buttonsDialog example_unselected_window) = False"
    by (simp_all add: example_unselected_window_def example_window_def)
  have l: "length example_soft_errors = 3" by (simp add: example_soft_errors_def)
  from finished_without_selection [OF c(1,2,3), of example_env] c l show ?thesis by simp
qed

end
